theory Spec2Isabelle
  imports Main
begin

section \<open>The image download and optimisation script\<close>

text \<open>
  A shallow embedding of \<^verbatim>\<open>DOWNLOAD_IMAGES.py\<close>. The script is glue around three
  libraries (\<^verbatim>\<open>requests\<close>, \<^verbatim>\<open>PIL\<close>, \<^verbatim>\<open>os\<close>). What the outside world answers
  (the server, the decoder, the encoder, the disk) is a parameter \<open>env\<close>. Every
  function takes the files on disk and returns three things: the events it caused (its
  library calls and prints, in order), its result, and the files it leaves. Every
  \<^verbatim>\<open>raise\<close> is a result \<open>Inl e\<close>.

  What the model leaves out: a path names a regular file or nothing (directories and
  links at an output path are not modelled); the exceptions are those derived from
  \<^verbatim>\<open>Exception\<close> (an interrupt of the process is not one); floating-point
  formatting of the printed sizes is replaced by the numbers themselves.
\<close>

subsection \<open>Data\<close>

type_synonym bytes = "nat list"

text \<open>The exceptions the libraries raise; all of them are subclasses of
  \<^verbatim>\<open>Exception\<close>, which is what the script's \<^verbatim>\<open>except\<close> clause catches.\<close>

datatype exn =
    ConnectionError
  | Timeout
  | HTTPError nat
  | UnidentifiedImageError
  | ValueError
  | IndexError
  | OSError
  | ZeroDivisionError
  | UnicodeEncodeError

text \<open>\<^verbatim>\<open>requests.Response\<close>: the fields the script reads.\<close>

record response =
  status_code :: nat
  content :: bytes

text \<open>
  \<^verbatim>\<open>PIL.Image.Image\<close>: the mode string, the size \<open>(width, height)\<close>, the pixels in
  row-major order, each the list of its band values as \<^verbatim>\<open>getpixel\<close> returns them
  (\<open>[r, g, b, a]\<close> in mode RGBA, \<open>[l, a]\<close> in mode LA, \<open>[index]\<close> in mode P,
  \<open>[index, a]\<close> in mode PA), and the palette of a P or PA image as RGBA entries.
  \<^verbatim>\<open>Image.open\<close> reads the header only; the pixel data is decoded by the first
  operation that needs it (\<^verbatim>\<open>load\<close>), which raises on a truncated or corrupt
  payload: \<open>load_error\<close> is that exception, if any.
\<close>

record image =
  mode :: string
  size_wh :: "nat \<times> nat"
  pixels :: "nat list list"
  palette :: "(nat \<times> nat \<times> nat \<times> nat) list"
  load_error :: "exn option"

text \<open>What the script prints. The fixed texts are constructors; a message with
  formatted numbers carries the numbers (float formatting is not modelled).\<close>

datatype message =
    Rule
  | Title
  | Intro nat string
  | Progress nat nat
  | Skip_exists string nat
  | Downloading string
  | Saved nat nat
  | Error_msg exn
  | Completed nat nat
  | Total_size nat
  | Output_directory string
  | Success_msg
  | Next_steps
  | Step nat
  | Warning_msg int
  | Check_connection

text \<open>The calls the script makes to the outside, with their arguments.\<close>

datatype event =
    Print message
  | Makedirs string
  | Http_get string "(string \<times> string) list" nat
  | Image_open bytes
  | Image_new string "nat \<times> nat" "nat list"
  | Convert string string
  | Split
  | Paste bool
  | Save string string nat nat bool image

text \<open>
  The outside world: the answer to \<^verbatim>\<open>requests.get(url, headers=, timeout=)\<close>, to
  \<^verbatim>\<open>Image.open\<close> on a payload, PIL's pixel conversion between two modes for the
  pairs not written out below (\<open>None\<close>: PIL has no such conversion and raises
  \<^verbatim>\<open>ValueError\<close>), the encoder behind \<^verbatim>\<open>img.save(path, format, quality=, method=, lossless=)\<close>,
  whether the path can be opened for writing, what a save that fails leaves at the
  path (\<open>None\<close>: nothing, as when PIL removes the file it had created), whether
  \<^verbatim>\<open>os.makedirs\<close> succeeds, and whether \<^verbatim>\<open>print\<close> of a message raises (a
  standard output that cannot encode the line, or that is closed).
\<close>

record env =
  http_get :: "string \<Rightarrow> (string \<times> string) list \<Rightarrow> nat \<Rightarrow> exn + response"
  image_open :: "bytes \<Rightarrow> exn + image"
  convert_other :: "string \<Rightarrow> string \<Rightarrow> (nat list \<Rightarrow> nat list) option"
  encode :: "string \<Rightarrow> image \<Rightarrow> nat \<Rightarrow> nat \<Rightarrow> bool \<Rightarrow> exn + bytes"
  write_error :: "string \<Rightarrow> exn option"
  failed_save_leaves :: "string \<Rightarrow> bytes option"
  makedirs_error :: "string \<Rightarrow> exn option"
  stdout_error :: "message \<Rightarrow> exn option"

text \<open>The regular files on disk, by path.\<close>

type_synonym filesystem = "string \<rightharpoonup> bytes"

subsection \<open>The library calls\<close>

text \<open>\<^verbatim>\<open>os.path.exists\<close> and \<^verbatim>\<open>os.path.getsize\<close> (which raises on a missing file).\<close>

definition path_exists :: "filesystem \<Rightarrow> string \<Rightarrow> bool" where
  "path_exists fs p = (fs p \<noteq> None)"

definition getsize :: "filesystem \<Rightarrow> string \<Rightarrow> exn + nat" where
  "getsize fs p = (case fs p of None \<Rightarrow> Inl OSError | Some b \<Rightarrow> Inr (length b))"

text \<open>\<^verbatim>\<open>Response.raise_for_status\<close>: raises \<^verbatim>\<open>HTTPError\<close> for a 4xx or 5xx status
  and for no other.\<close>

definition raise_for_status :: "response \<Rightarrow> exn option" where
  "raise_for_status r =
     (if 400 \<le> status_code r \<and> status_code r < 600 then Some (HTTPError (status_code r))
      else None)"

text \<open>\<^verbatim>\<open>Image.new(mode, size, color)\<close>.\<close>

definition Image_new_im :: "string \<Rightarrow> nat \<times> nat \<Rightarrow> nat list \<Rightarrow> image" where
  "Image_new_im m sz color =
     \<lparr>mode = m, size_wh = sz, pixels = replicate (fst sz * snd sz) color, palette = [],
      load_error = None\<rparr>"

text \<open>A palette lookup; PIL's palettes have 256 entries, the unset ones opaque black.\<close>

definition palette_entry :: "image \<Rightarrow> nat \<Rightarrow> nat \<times> nat \<times> nat \<times> nat" where
  "palette_entry img i = (if i < length (palette img) then palette img ! i else (0, 0, 0, 255))"

fun entry_rgba :: "nat \<times> nat \<times> nat \<times> nat \<Rightarrow> nat list" where
  "entry_rgba (r, g, b, a) = [r, g, b, a]"

fun entry_rgb :: "nat \<times> nat \<times> nat \<times> nat \<Rightarrow> nat list" where
  "entry_rgb (r, g, b, a) = [r, g, b]"

text \<open>
  \<^verbatim>\<open>img.convert(m)\<close>. It loads the pixel data first, which may raise. Written
  out: the identity conversion, P to RGBA (each index becomes its palette entry, alpha
  included) and PA to RGB (each index becomes the colour of its palette entry; the alpha
  band is dropped, nothing is composited). Every other pair is the world's
  \<open>convert_other\<close>. The result has the requested mode.
\<close>

definition convert :: "env \<Rightarrow> image \<Rightarrow> string \<Rightarrow> exn + image" where
  "convert en img m =
     (case load_error img of
        Some e \<Rightarrow> Inl e
      | None \<Rightarrow>
          if mode img = m then Inr img
          else if mode img = ''P'' \<and> m = ''RGBA'' then
            Inr (img\<lparr>mode := m,
                     pixels := map (\<lambda>px. entry_rgba (palette_entry img (hd px))) (pixels img),
                     palette := []\<rparr>)
          else if mode img = ''PA'' \<and> m = ''RGB'' then
            Inr (img\<lparr>mode := m,
                     pixels := map (\<lambda>px. entry_rgb (palette_entry img (hd px))) (pixels img),
                     palette := []\<rparr>)
          else (case convert_other en (mode img) m of
                  None \<Rightarrow> Inl ValueError
                | Some f \<Rightarrow>
                    Inr (img\<lparr>mode := m, pixels := map f (pixels img), palette := []\<rparr>)))"

text \<open>\<^verbatim>\<open>Image.getbands\<close>: the number of bands of a mode.\<close>

definition bands_of :: "string \<Rightarrow> nat" where
  "bands_of m =
     (if m \<in> set [''RGBA'', ''RGBa'', ''RGBX'', ''CMYK''] then 4
      else if m \<in> set [''RGB'', ''YCbCr'', ''LAB'', ''HSV''] then 3
      else if m \<in> set [''LA'', ''La'', ''PA''] then 2
      else 1)"

text \<open>\<^verbatim>\<open>img.split()\<close>: it loads the pixel data, which may raise, and returns one
  single-band image per band.\<close>

definition split :: "image \<Rightarrow> exn + image list" where
  "split img =
     (case load_error img of
        Some e \<Rightarrow> Inl e
      | None \<Rightarrow>
          Inr (map (\<lambda>k. \<lparr>mode = ''L'', size_wh = size_wh img,
                         pixels = map (\<lambda>px. [px ! k]) (pixels img), palette = [],
                         load_error = None\<rparr>)
                 [0 ..< bands_of (mode img)]))"

text \<open>
  PIL's 8-bit blend (\<^verbatim>\<open>DIV255\<close> and \<^verbatim>\<open>BLEND8\<close> of its C core): the rounded value of
  \<open>(in1 * (255 - mask) + in2 * mask) / 255\<close>.
\<close>

definition DIV255 :: "nat \<Rightarrow> nat" where
  "DIV255 a = ((a + 128) div 256 + (a + 128)) div 256"

definition BLEND8 :: "nat \<Rightarrow> nat \<Rightarrow> nat \<Rightarrow> nat" where
  "BLEND8 msk in1 in2 = DIV255 (in1 * (255 - msk) + in2 * msk)"

text \<open>The colour bands an image contributes when pasted onto an RGB image: the grey
  value three times for an L or LA source, the first three bands otherwise.\<close>

definition rgb_bands :: "string \<Rightarrow> nat list \<Rightarrow> nat list" where
  "rgb_bands m px = (if m \<in> set [''L'', ''LA''] then replicate 3 (hd px) else take 3 px)"

text \<open>
  \<^verbatim>\<open>background.paste(img, mask=mask)\<close> and \<^verbatim>\<open>background.paste(img)\<close> for an RGB
  background and an image of the background's size (the only calls the script makes):
  with a mask every band is blended pixel by pixel, the mask value weighing the
  source; without one the source colour replaces the background. The pasted image's
  pixel data must be loaded; the script's masked paste follows a \<^verbatim>\<open>split\<close> of the
  same image, which has loaded it, and the paste without a mask loads it itself (see
  \<open>normalize_mode\<close>).
\<close>

definition paste :: "image \<Rightarrow> image \<Rightarrow> image option \<Rightarrow> image" where
  "paste background img mask_opt =
     (case mask_opt of
        None \<Rightarrow> background\<lparr>pixels := map (rgb_bands (mode img)) (pixels img)\<rparr>
      | Some msk \<Rightarrow>
          background\<lparr>pixels :=
            map (\<lambda>(out, src, a). map (\<lambda>(d, c). BLEND8 (hd a) d c) (zip out (rgb_bands (mode img) src)))
              (zip (pixels background) (zip (pixels img) (pixels msk)))\<rparr>)"

subsection \<open>Colour mode normalisation (lines 86 to 96)\<close>

text \<open>
  The block \<^verbatim>\<open>if img.mode in ('RGBA', 'LA', 'P'): ... elif img.mode != 'RGB': ...\<close>
  of \<^verbatim>\<open>download_and_optimize\<close>: the events it causes and the image it leaves in
  \<^verbatim>\<open>img\<close>, or the exception raised.
\<close>

definition normalize_mode :: "env \<Rightarrow> image \<Rightarrow> event list \<times> (exn + image)" where
  "normalize_mode en img =
     (if mode img \<in> set [''RGBA'', ''LA'', ''P''] then
        (let background = Image_new_im ''RGB'' (size_wh img) [255, 255, 255];
             ev1 = [Image_new ''RGB'' (size_wh img) [255, 255, 255]];
             (ev2, r) = (if mode img = ''P''
                         then (ev1 @ [Convert ''P'' ''RGBA''], convert en img ''RGBA'')
                         else (ev1, Inr img))
         in case r of
              Inl e \<Rightarrow> (ev2, Inl e)
            | Inr img2 \<Rightarrow>
                if mode img2 \<in> set [''RGBA'', ''LA''] then
                  (case split img2 of
                     Inl e \<Rightarrow> (ev2 @ [Split], Inl e)
                   | Inr [] \<Rightarrow> (ev2 @ [Split], Inl IndexError)
                   | Inr (b # bs) \<Rightarrow>
                       (ev2 @ [Split, Paste True],
                        Inr (paste background img2 (Some (last (b # bs))))))
                else (case load_error img2 of
                        Some e \<Rightarrow> (ev2 @ [Paste False], Inl e)
                      | None \<Rightarrow> (ev2 @ [Paste False], Inr (paste background img2 None))))
      else if mode img \<noteq> ''RGB'' then
        ([Convert (mode img) ''RGB''], convert en img ''RGB'')
      else ([], Inr img))"

subsection \<open>The constants of the script\<close>

definition IMAGES :: "(string \<times> int \<times> string) list" where
  "IMAGES = [
    (''photo-1503387762-592deb58ef4e'', 1920, ''Architect reviewing building plans''),
    (''photo-1600607687939-ce8a6c25118c'', 1920, ''HERO IMAGE - Modern interior living room''),
    (''photo-1566073771259-6a8506099945'', 1920, ''Contemporary interior design''),
    (''photo-1486406146926-c627a92ad1ab'', 1920, ''Modern office building''),
    (''photo-1524813686514-a57563d77965'', 1920, ''Minimalist interior''),
    (''photo-1556911220-bff31c812dba'', 1920, ''Modern kitchen design''),
    (''photo-1618221195710-dd6b41faaea6'', 1920, ''Interior design with plants''),
    (''photo-1616486338812-3dadae4b4ace'', 1920, ''Contemporary living space''),
    (''photo-1541888946425-d81bb19240f5'', 1920, ''Construction site''),
    (''photo-1558904541-efa843a96f01'', 1200, ''Service image''),
    (''photo-1600210492486-724fe5c67fb0'', 1200, ''Floor to ceiling windows''),
    (''photo-1586023492125-27b2c045efd7'', 1200, ''Neutral color interior''),
    (''photo-1556912167-f556f1f39faa'', 1200, ''Multi-functional space''),
    (''photo-1615873968403-89e068629265'', 1200, ''Modern flooring''),
    (''photo-1513519245088-0e12902e35ca'', 1200, ''Statement wall art''),
    (''photo-1505693416388-ac5ce068fe85'', 1200, ''Cozy reading nook''),
    (''photo-1558002038-1055907df827'', 1200, ''Smart home technology''),
    (''photo-1463320726281-696a485928c7'', 1200, ''Indoor plants biophilic''),
    (''photo-1554224311-beee4f201d8d'', 800, ''Interior designer portfolio''),
    (''photo-1560518883-ce09059eeffa'', 1920, ''Luxury interior''),
    (''photo-1454165804606-c3d57bc86b40'', 1200, ''Budget planning''),
    (''photo-1552321554-5fefe8c9ef14'', 1200, ''Modern bathroom''),
    (''photo-1460472178825-e5240623afd5'', 1200, ''Design factors''),
    (''photo-1523726491678-bf852e717f6a'', 1200, ''Cost analysis''),
    (''photo-1554224155-6726b3ff858f'', 1200, ''Budget strategies''),
    (''photo-1600880292203-757bb62b4baf'', 1200, ''Professional team''),
    (''photo-1553877522-43269d4ea984'', 1200, ''Design consultation''),
    (''photo-1423666639041-f56000c27a9a'', 1920, ''Modern architecture''),
    (''photo-1507003211169-0a1dd7228f2d'', 1920, ''Professional portrait'')
  ]"

definition OUTPUT_DIR :: string where
  "OUTPUT_DIR = ''assets/images''"

definition WEBP_QUALITY :: nat where
  "WEBP_QUALITY = 85"

subsection \<open>Formatting an integer, as an f-string does\<close>

fun str_nat :: "nat \<Rightarrow> string" where
  "str_nat n =
     (if n < 10 then [''0123456789'' ! n]
      else str_nat (n div 10) @ [''0123456789'' ! (n mod 10)])"

declare str_nat.simps [simp del]

definition str_int :: "int \<Rightarrow> string" where
  "str_int k = (if k < 0 then CHR ''-'' # str_nat (nat (- k)) else str_nat (nat k))"

subsection \<open>\<^verbatim>\<open>download_and_optimize\<close>\<close>

text \<open>The two locals computed first (lines 62 and 63) and the header dictionary
  (lines 74 to 77).\<close>

definition url :: "string \<Rightarrow> int \<Rightarrow> string" where
  "url photo_id width =
     ''https://images.unsplash.com/'' @ photo_id @ ''?w='' @ str_int width @ ''&q=80''"

definition output_path :: "string \<Rightarrow> string" where
  "output_path photo_id = OUTPUT_DIR @ ''/'' @ photo_id @ ''.webp''"

definition headers :: "(string \<times> string) list" where
  "headers =
     [(''User-Agent'', ''Mozilla/5.0 (Macintosh; Intel Mac OS X 10_15_7) AppleWebKit/537.36''),
      (''Referer'', ''https://www.urbanways.co.in/'')]"

text \<open>
  \<^verbatim>\<open>img.save(path, format, quality=, method=, lossless=)\<close>: the pixel data is
  loaded (which may raise), the file is opened for writing, the image encoded, the
  bytes written. A failure after the file was opened leaves at the path what the world
  says a failed save leaves.
\<close>

definition save ::
  "env \<Rightarrow> image \<Rightarrow> string \<Rightarrow> string \<Rightarrow> nat \<Rightarrow> nat \<Rightarrow> bool \<Rightarrow> filesystem \<Rightarrow>
   event list \<times> (exn + unit) \<times> filesystem" where
  "save en img path fmt quality meth lossless fs =
     (case load_error img of
        Some e \<Rightarrow> ([Save path fmt quality meth lossless img], Inl e, fs)
      | None \<Rightarrow>
          (case write_error en path of
             Some e \<Rightarrow> ([Save path fmt quality meth lossless img], Inl e, fs)
           | None \<Rightarrow>
               (case encode en fmt img quality meth lossless of
                  Inl e \<Rightarrow> ([Save path fmt quality meth lossless img], Inl e,
                            fs(path := failed_save_leaves en path))
                | Inr data \<Rightarrow> ([Save path fmt quality meth lossless img], Inr (),
                               fs(path \<mapsto> data)))))"

text \<open>\<^verbatim>\<open>print\<close> of several lines in turn: the prints made, and the exception of the
  first one that raises, after which none is made.\<close>

fun prints :: "env \<Rightarrow> message list \<Rightarrow> event list \<times> exn option" where
  "prints en [] = ([], None)"
| "prints en (m # ms) =
     (case stdout_error en m of
        Some e \<Rightarrow> ([Print m], Some e)
      | None \<Rightarrow> (case prints en ms of (evs, r) \<Rightarrow> (Print m # evs, r)))"

text \<open>
  The body of the \<^verbatim>\<open>try\<close> block (lines 71 to 112). \<open>Inl e\<close> is the exception that
  leaves the block. The last steps divide by the payload's length, which raises
  \<^verbatim>\<open>ZeroDivisionError\<close> on an empty payload, and print the result.
\<close>

definition try_body ::
  "env \<Rightarrow> string \<Rightarrow> int \<Rightarrow> string \<Rightarrow> filesystem \<Rightarrow> event list \<times> (exn + unit) \<times> filesystem" where
  "try_body en photo_id width description fs =
     (case stdout_error en (Downloading (take 40 description)) of
        Some e \<Rightarrow> ([Print (Downloading (take 40 description))], Inl e, fs)
      | None \<Rightarrow>
     (let ev1 = [Print (Downloading (take 40 description)),
                 Http_get (url photo_id width) headers 30]
      in case http_get en (url photo_id width) headers 30 of
           Inl e \<Rightarrow> (ev1, Inl e, fs)
         | Inr response \<Rightarrow>
             (case raise_for_status response of
                Some e \<Rightarrow> (ev1, Inl e, fs)
              | None \<Rightarrow>
                  (let ev2 = ev1 @ [Image_open (content response)] in
                   case image_open en (content response) of
                     Inl e \<Rightarrow> (ev2, Inl e, fs)
                   | Inr img \<Rightarrow>
                       (case normalize_mode en img of
                          (ev3, Inl e) \<Rightarrow> (ev2 @ ev3, Inl e, fs)
                        | (ev3, Inr img') \<Rightarrow>
                            (case save en img' (output_path photo_id) ''WEBP'' WEBP_QUALITY 6 False fs of
                               (ev4, Inl e, fs') \<Rightarrow> (ev2 @ ev3 @ ev4, Inl e, fs')
                             | (ev4, Inr u, fs') \<Rightarrow>
                                 (case getsize fs' (output_path photo_id) of
                                    Inl e \<Rightarrow> (ev2 @ ev3 @ ev4, Inl e, fs')
                                  | Inr size_b \<Rightarrow>
                                      if length (content response) = 0
                                      then (ev2 @ ev3 @ ev4, Inl ZeroDivisionError, fs')
                                      else
                                        (case stdout_error en
                                                (Saved size_b (length (content response))) of
                                           Some e \<Rightarrow>
                                             (ev2 @ ev3 @ ev4 @
                                                [Print (Saved size_b (length (content response)))],
                                              Inl e, fs')
                                         | None \<Rightarrow>
                                             (ev2 @ ev3 @ ev4 @
                                                [Print (Saved size_b (length (content response)))],
                                              Inr (), fs')))))))))"

text \<open>
  The function (lines 59 to 116): the skip when the output exists, otherwise the
  \<^verbatim>\<open>try\<close> block, whose every exception the \<^verbatim>\<open>except Exception\<close> clause turns
  into \<^verbatim>\<open>False\<close> after printing it. \<open>Inl e\<close> is an exception that leaves the
  function: the skip line and the handler's line are printed outside the \<^verbatim>\<open>try\<close>.
\<close>

definition download_and_optimize ::
  "env \<Rightarrow> string \<Rightarrow> int \<Rightarrow> string \<Rightarrow> filesystem \<Rightarrow> event list \<times> (exn + bool) \<times> filesystem" where
  "download_and_optimize en photo_id width description fs =
     (if path_exists fs (output_path photo_id) then
        (case getsize fs (output_path photo_id) of
           Inl e \<Rightarrow> ([], Inl e, fs)
         | Inr size_b \<Rightarrow>
             (case stdout_error en (Skip_exists photo_id size_b) of
                Some e \<Rightarrow> ([Print (Skip_exists photo_id size_b)], Inl e, fs)
              | None \<Rightarrow> ([Print (Skip_exists photo_id size_b)], Inr True, fs)))
      else
        (case try_body en photo_id width description fs of
           (evs, Inr u, fs') \<Rightarrow> (evs, Inr True, fs')
         | (evs, Inl e, fs') \<Rightarrow>
             (case stdout_error en (Error_msg e) of
                Some e' \<Rightarrow> (evs @ [Print (Error_msg e)], Inl e', fs')
              | None \<Rightarrow> (evs @ [Print (Error_msg e)], Inr False, fs'))))"

subsection \<open>\<^verbatim>\<open>main\<close>\<close>

text \<open>
  The \<^verbatim>\<open>for\<close> loop of \<^verbatim>\<open>main\<close> (lines 131 to 137) from item number \<open>i\<close> on, with
  the two counters; \<open>Inl e\<close> is an exception that leaves the loop.
\<close>

fun main_loop ::
  "env \<Rightarrow> nat \<Rightarrow> (string \<times> int \<times> string) list \<Rightarrow> nat \<times> nat \<Rightarrow> filesystem \<Rightarrow>
   event list \<times> (exn + nat \<times> nat) \<times> filesystem" where
  "main_loop en i [] acc fs = ([], Inr acc, fs)"
| "main_loop en i ((photo_id, width, description) # rest) (success_count, total_size) fs =
     (case stdout_error en (Progress i (length IMAGES)) of
        Some e \<Rightarrow> ([Print (Progress i (length IMAGES))], Inl e, fs)
      | None \<Rightarrow>
     (case download_and_optimize en photo_id width description fs of
        (ev1, Inl e, fs2) \<Rightarrow> (Print (Progress i (length IMAGES)) # ev1, Inl e, fs2)
      | (ev1, Inr ok, fs2) \<Rightarrow>
          (case (if ok then
                   (if path_exists fs2 (output_path photo_id) then
                      (case getsize fs2 (output_path photo_id) of
                         Inl e \<Rightarrow> Inl e
                       | Inr n \<Rightarrow> Inr (Suc success_count, total_size + n))
                    else Inr (Suc success_count, total_size))
                 else Inr (success_count, total_size)) of
             Inl e \<Rightarrow> (Print (Progress i (length IMAGES)) # ev1, Inl e, fs2)
           | Inr acc \<Rightarrow>
               (case main_loop en (Suc i) rest acc fs2 of
                  (ev2, r, fs3) \<Rightarrow> (Print (Progress i (length IMAGES)) # ev1 @ ev2, r, fs3)))))"

text \<open>
  \<^verbatim>\<open>main\<close> (lines 118 to 154): the lines printed before the loop, the lines of
  the summary, the closing lines, and the function. \<open>Inr ()\<close> is the normal
  fall-through, after which the process exits with status 0; \<open>Inl e\<close> is an uncaught
  exception.
\<close>

definition heading :: "message list" where
  "heading = [Rule, Title, Rule, Intro (length IMAGES) OUTPUT_DIR]"

definition summary :: "nat \<Rightarrow> nat \<Rightarrow> message list" where
  "summary success_count total_size =
     [Rule, Completed success_count (length IMAGES), Total_size total_size,
      Output_directory OUTPUT_DIR, Rule]"

definition closing :: "nat \<Rightarrow> message list" where
  "closing success_count =
     (if success_count = length IMAGES
      then [Success_msg, Next_steps, Step 1, Step 2, Step 3]
      else [Warning_msg (int (length IMAGES) - int success_count), Check_connection])"

definition main :: "env \<Rightarrow> filesystem \<Rightarrow> event list \<times> (exn + unit) \<times> filesystem" where
  "main en fs =
     (case prints en heading of
        (ev0, Some e) \<Rightarrow> (ev0, Inl e, fs)
      | (ev0, None) \<Rightarrow>
          (case makedirs_error en OUTPUT_DIR of
             Some e \<Rightarrow> (ev0 @ [Makedirs OUTPUT_DIR], Inl e, fs)
           | None \<Rightarrow>
               (case main_loop en 1 IMAGES (0, 0) fs of
                  (ev2, Inl e, fs') \<Rightarrow> (ev0 @ [Makedirs OUTPUT_DIR] @ ev2, Inl e, fs')
                | (ev2, Inr (success_count, total_size), fs') \<Rightarrow>
                    (case prints en (summary success_count total_size @ closing success_count) of
                       (ev3, Some e) \<Rightarrow> (ev0 @ [Makedirs OUTPUT_DIR] @ ev2 @ ev3, Inl e, fs')
                     | (ev3, None) \<Rightarrow>
                         (ev0 @ [Makedirs OUTPUT_DIR] @ ev2 @ ev3, Inr (), fs')))))"

text \<open>
  The values \<^verbatim>\<open>download_and_optimize\<close> returns to the loop, in call order: the
  loop's own sequence of calls, keeping each result.
\<close>

fun outcomes :: "env \<Rightarrow> (string \<times> int \<times> string) list \<Rightarrow> filesystem \<Rightarrow> bool list" where
  "outcomes en [] fs = []"
| "outcomes en ((photo_id, width, description) # rest) fs =
     (case download_and_optimize en photo_id width description fs of
        (evs, Inl e, fs2) \<Rightarrow> []
      | (evs, Inr ok, fs2) \<Rightarrow> ok # outcomes en rest fs2)"

text \<open>
  The calls themselves: \<^verbatim>\<open>download_and_optimize\<close> applied to each item in turn, each
  on the files the call before it left, with what each call returned (its events, its
  result, the files it left); the events of a loop that prints its progress line before
  each of these calls; and the files after the last of them.
\<close>

fun calls ::
  "env \<Rightarrow> (string \<times> int \<times> string) list \<Rightarrow> filesystem \<Rightarrow>
   (event list \<times> (exn + bool) \<times> filesystem) list" where
  "calls en [] fs = []"
| "calls en ((photo_id, width, description) # rest) fs =
     download_and_optimize en photo_id width description fs #
     calls en rest (snd (snd (download_and_optimize en photo_id width description fs)))"

fun run_events :: "nat \<Rightarrow> (event list \<times> (exn + bool) \<times> filesystem) list \<Rightarrow> event list" where
  "run_events i [] = []"
| "run_events i (c # cs) = Print (Progress i (length IMAGES)) # fst c @ run_events (Suc i) cs"

definition final_files ::
  "filesystem \<Rightarrow> (event list \<times> (exn + bool) \<times> filesystem) list \<Rightarrow> filesystem" where
  "final_files fs cs = (if cs = [] then fs else snd (snd (last cs)))"

subsection \<open>The vocabulary of the properties\<close>

text \<open>
  A mode has an alpha channel when one of its bands is alpha. The alpha of a pixel is
  its last band in such a mode and its palette entry's alpha in mode P. An image is
  well formed when it has as many pixels as its size says and every pixel has the
  bands of its mode.
\<close>

definition has_alpha_channel :: "string \<Rightarrow> bool" where
  "has_alpha_channel m = (m \<in> set [''RGBA'', ''LA'', ''PA'', ''RGBa'', ''La''])"

fun entry_alpha :: "nat \<times> nat \<times> nat \<times> nat \<Rightarrow> nat" where
  "entry_alpha (r, g, b, a) = a"

definition alpha_at :: "image \<Rightarrow> nat \<Rightarrow> nat option" where
  "alpha_at img i =
     (if has_alpha_channel (mode img) then Some (last (pixels img ! i))
      else if mode img = ''P'' then Some (entry_alpha (palette_entry img (hd (pixels img ! i))))
      else None)"

definition wf_image :: "image \<Rightarrow> bool" where
  "wf_image img =
     (length (pixels img) = fst (size_wh img) * snd (size_wh img) \<and>
      (\<forall>px \<in> set (pixels img). length px = bands_of (mode img)))"

text \<open>Kinds of events: a network request, a call of the encoder, a progress line of
  the loop, and the lines of the final report that depend on the run (the count, the
  total size, the closing message), and among them the line of the total size.\<close>

fun is_http_get :: "event \<Rightarrow> bool" where
  "is_http_get (Http_get u h t) = True"
| "is_http_get e = False"

fun is_save :: "event \<Rightarrow> bool" where
  "is_save (Save p f q m l im) = True"
| "is_save e = False"

fun is_progress :: "event \<Rightarrow> bool" where
  "is_progress (Print (Progress i n)) = True"
| "is_progress e = False"

fun is_report :: "event \<Rightarrow> bool" where
  "is_report (Print (Completed n k)) = True"
| "is_report (Print (Total_size t)) = True"
| "is_report (Print Success_msg) = True"
| "is_report (Print (Warning_msg k)) = True"
| "is_report e = False"

fun is_total_size :: "event \<Rightarrow> bool" where
  "is_total_size (Print (Total_size t)) = True"
| "is_total_size e = False"

text \<open>The size of the file at a path (0 when there is none); the number of
  \<^verbatim>\<open>True\<close> results; the sum, over the items whose call returned \<^verbatim>\<open>True\<close>, of
  the size of the item's output file.\<close>

definition file_size :: "filesystem \<Rightarrow> string \<Rightarrow> nat" where
  "file_size fs p = (case fs p of None \<Rightarrow> 0 | Some b \<Rightarrow> length b)"

definition succeeded :: "bool list \<Rightarrow> nat" where
  "succeeded oks = length (filter (\<lambda>ok. ok) oks)"

fun successful_size :: "filesystem \<Rightarrow> (string \<times> int \<times> string) list \<Rightarrow> bool list \<Rightarrow> nat" where
  "successful_size fs ((photo_id, width, description) # items) (ok # oks) =
     (if ok then file_size fs (output_path photo_id) else 0) + successful_size fs items oks"
| "successful_size fs items oks = 0"

text \<open>A path names an entry of a directory: the directory, a slash, a name without
  a slash.\<close>

definition in_dir :: "string \<Rightarrow> string \<Rightarrow> bool" where
  "in_dir dir p =
     (take (length dir + 1) p = dir @ ''/'' \<and> CHR ''/'' \<notin> set (drop (length dir + 1) p))"

subsection \<open>Example inputs\<close>

text \<open>A two-pixel RGBA image whose first pixel is fully transparent, and a one-pixel
  PA image whose pixel is fully transparent and whose palette colour is not white.\<close>

definition example_rgba :: image where
  "example_rgba =
     \<lparr>mode = ''RGBA'', size_wh = (2, 1), pixels = [[10, 20, 30, 0], [10, 20, 30, 128]],
      palette = [], load_error = None\<rparr>"

definition example_pa :: image where
  "example_pa =
     \<lparr>mode = ''PA'', size_wh = (1, 1), pixels = [[0, 0]], palette = [(10, 20, 30, 255)],
      load_error = None\<rparr>"

text \<open>An RGBA image of a truncated payload: the header was read, the pixel data does
  not decode.\<close>

definition example_truncated :: image where
  "example_truncated =
     \<lparr>mode = ''RGBA'', size_wh = (2, 1), pixels = [], palette = [], load_error = Some OSError\<rparr>"

text \<open>A world whose server answers every request with the given status and a
  three-byte payload, whose decoder reads every payload as \<open>example_rgba\<close>, whose
  encoder returns two bytes, and whose disk and standard output never fail.\<close>

definition env_status :: "nat \<Rightarrow> env" where
  "env_status code =
     \<lparr>http_get = (\<lambda>u h t. Inr \<lparr>status_code = code, content = [1, 2, 3]\<rparr>),
      image_open = (\<lambda>b. Inr example_rgba),
      convert_other = (\<lambda>m m'. None),
      encode = (\<lambda>f im q m l. Inr [9, 9]),
      write_error = (\<lambda>p. None),
      failed_save_leaves = (\<lambda>p. None),
      makedirs_error = (\<lambda>p. None),
      stdout_error = (\<lambda>m. None)\<rparr>"

text \<open>A world with one failure of each kind: the first item's request times out, the
  second gets status 404, the third a payload that is no image, the fourth cannot be
  written; every other item is fetched, decoded, encoded and written.\<close>

definition env_mixed :: env where
  "env_mixed =
     \<lparr>http_get = (\<lambda>u h t.
        if u = url ''photo-1503387762-592deb58ef4e'' 1920 then Inl Timeout
        else if u = url ''photo-1600607687939-ce8a6c25118c'' 1920
          then Inr \<lparr>status_code = 404, content = []\<rparr>
        else if u = url ''photo-1566073771259-6a8506099945'' 1920
          then Inr \<lparr>status_code = 200, content = [0]\<rparr>
        else Inr \<lparr>status_code = 200, content = [1, 2, 3]\<rparr>),
      image_open = (\<lambda>b. if b = [0] then Inl UnidentifiedImageError else Inr example_rgba),
      convert_other = (\<lambda>m m'. None),
      encode = (\<lambda>f im q m l. Inr [9, 9]),
      write_error = (\<lambda>p. if p = output_path ''photo-1486406146926-c627a92ad1ab''
                          then Some OSError else None),
      failed_save_leaves = (\<lambda>p. None),
      makedirs_error = (\<lambda>p. None),
      stdout_error = (\<lambda>m. None)\<rparr>"

text \<open>The same world with a standard output that cannot encode the handler's error
  line (its first character is outside the output's encoding).\<close>

definition env_narrow_stdout :: env where
  "env_narrow_stdout =
     env_mixed\<lparr>stdout_error :=
       (\<lambda>m. case m of Error_msg e \<Rightarrow> Some UnicodeEncodeError | _ \<Rightarrow> None)\<rparr>"

text \<open>A disk that holds every output file already, and one more file in the output
  directory; a disk that holds the first output file only.\<close>

definition fs_full :: filesystem where
  "fs_full p =
     (if p = ''assets/images/logo.png'' then Some [7]
      else if p \<in> set (map (\<lambda>item. output_path (fst item)) IMAGES) then Some [1]
      else None)"

definition fs_first :: filesystem where
  "fs_first = [output_path ''photo-1503387762-592deb58ef4e'' \<mapsto> [1, 2, 3, 4, 5]]"

section \<open>Properties\<close>

subsection \<open>Auxiliary facts\<close>

lemma length_IMAGES: "length IMAGES = 29"
  by (simp add: IMAGES_def)

lemma BLEND8_zero: "BLEND8 0 255 c = 255"
  by (simp add: BLEND8_def DIV255_def)

lemma split_loaded:
  "load_error img = None \<Longrightarrow>
   split img = Inr (map (\<lambda>k. \<lparr>mode = ''L'', size_wh = size_wh img,
                         pixels = map (\<lambda>px. [px ! k]) (pixels img), palette = [],
                         load_error = None\<rparr>) [0 ..< bands_of (mode img)])"
  by (simp add: split_def)

lemma split_Inr: "split img = Inr bs \<Longrightarrow> load_error img = None"
  by (auto simp: split_def split: option.splits)

lemma split_Inl: "split img = Inl e \<longleftrightarrow> load_error img = Some e"
  by (auto simp: split_def split: option.splits)

lemma split_nonempty:
  "mode img \<in> set [''RGBA'', ''LA''] \<Longrightarrow> split img = Inr bs \<Longrightarrow> bs \<noteq> []"
  by (auto simp: split_def bands_of_def split: option.splits)

lemma blend_zero_white:
  "length cs = 3 \<Longrightarrow> map (\<lambda>(d, c). BLEND8 0 d c) (zip [255, 255, 255] cs) = [255, 255, 255]"
  by (auto simp: length_Suc_conv numeral_3_eq_3 BLEND8_zero)

lemma pixels_last_split:
  "mode img \<in> set [''RGBA'', ''LA''] \<Longrightarrow> split img = Inr bs \<Longrightarrow>
   pixels (last bs) = map (\<lambda>px. [px ! (bands_of (mode img) - 1)]) (pixels img)"
  by (auto simp: split_def bands_of_def last_map split: option.splits)

lemma paste_masked_nth:
  assumes "i < length (pixels img)" "length (pixels bg) = length (pixels img)"
    "length (pixels msk) = length (pixels img)"
  shows "pixels (paste bg img (Some msk)) ! i =
     map (\<lambda>(d, c). BLEND8 (hd (pixels msk ! i)) d c)
       (zip (pixels bg ! i) (rgb_bands (mode img) (pixels img ! i)))"
  using assms by (simp add: paste_def)

lemma composite_white:
  assumes m: "mode img \<in> set [''RGBA'', ''LA'']" and wf: "wf_image img"
    and i: "i < length (pixels img)" and a: "last (pixels img ! i) = 0"
    and sp: "split img = Inr bs"
  shows "pixels (paste (Image_new_im ''RGB'' (size_wh img) [255, 255, 255]) img
                  (Some (last bs))) ! i = [255, 255, 255]"
proof -
  let ?bg = "Image_new_im ''RGB'' (size_wh img) [255, 255, 255]"
  let ?px = "pixels img ! i"
  note ps = pixels_last_split [OF m sp]
  have len: "length ?px = bands_of (mode img)"
    using wf i by (simp add: wf_image_def)
  have nonempty: "?px \<noteq> []"
    using len m by (auto simp: bands_of_def)
  have "last ?px = ?px ! (bands_of (mode img) - 1)"
    using nonempty len by (simp add: last_conv_nth)
  then have alpha: "hd (pixels (last bs) ! i) = 0"
    using a i by (simp add: ps)
  have bg: "length (pixels ?bg) = length (pixels img)" "pixels ?bg ! i = [255, 255, 255]"
    using wf i by (simp_all add: wf_image_def Image_new_im_def)
  have three: "length (rgb_bands (mode img) ?px) = 3"
    using m len by (auto simp: rgb_bands_def bands_of_def)
  have "pixels (paste ?bg img (Some (last bs))) ! i =
        map (\<lambda>(d, c). BLEND8 0 d c) (zip [255, 255, 255] (rgb_bands (mode img) ?px))"
    using paste_masked_nth [OF i bg(1), of "last bs"] alpha bg(2)
    by (simp add: ps)
  then show ?thesis
    by (simp add: blend_zero_white [OF three])
qed

lemma length_paste_masked:
  "length (pixels bg) = length (pixels img) \<Longrightarrow> length (pixels msk) = length (pixels img) \<Longrightarrow>
   length (pixels (paste bg img (Some msk))) = length (pixels img)"
  by (simp add: paste_def)

lemma convert_mode: "convert en img m = Inr out \<Longrightarrow> mode out = m"
  by (auto simp: convert_def split: if_splits option.splits)

lemma convert_Inr: "convert en img m = Inr out \<Longrightarrow> load_error img = None"
  by (auto simp: convert_def split: if_splits option.splits)

lemma convert_P_RGBA:
  "mode img = ''P'' \<Longrightarrow>
   convert en img ''RGBA'' =
     (case load_error img of
        Some e \<Rightarrow> Inl e
      | None \<Rightarrow> Inr (img\<lparr>mode := ''RGBA'',
            pixels := map (\<lambda>px. entry_rgba (palette_entry img (hd px))) (pixels img),
            palette := []\<rparr>))"
  by (simp add: convert_def split: option.splits)

lemma normalize_facts:
  assumes "normalize_mode en img = (evs, r)"
  shows "Paste False \<notin> set evs \<and>
         (\<forall>e \<in> set evs. \<not> is_http_get e \<and> \<not> is_save e \<and> \<not> is_progress e \<and> \<not> is_report e) \<and>
         (\<forall>out. r = Inr out \<longrightarrow> mode out = ''RGB'')"
  using assms
  by (auto simp: normalize_mode_def Let_def paste_def Image_new_im_def dest: convert_mode
      split: if_splits sum.splits list.splits prod.splits option.splits)

lemma dao_total:
  assumes "\<forall>m. stdout_error en m = None"
  shows "\<exists>evs b fs'. download_and_optimize en pid w d fs = (evs, Inr b, fs')"
  using assms
  by (auto simp: download_and_optimize_def path_exists_def getsize_def
      split: sum.splits option.splits prod.splits)

lemma try_body_files:
  assumes "try_body en pid w d fs = (evs, r, fs')"
  shows "p \<noteq> output_path pid \<Longrightarrow> fs' p = fs p"
    and "r = Inr u \<Longrightarrow> fs' (output_path pid) \<noteq> None"
  using assms
  by (auto simp: try_body_def save_def Let_def getsize_def
      split: sum.splits option.splits prod.splits if_splits)

lemma dao_files_other:
  assumes "download_and_optimize en pid w d fs = (evs, r, fs')" "p \<noteq> output_path pid"
  shows "fs' p = fs p"
  using assms
  by (auto simp: download_and_optimize_def path_exists_def getsize_def
      dest: try_body_files(1)
      split: sum.splits option.splits prod.splits if_splits)

lemma dao_files_success:
  assumes "download_and_optimize en pid w d fs = (evs, Inr True, fs')"
  shows "fs' (output_path pid) \<noteq> None"
  using assms
  by (auto simp: download_and_optimize_def path_exists_def getsize_def
      dest: try_body_files(2)
      split: sum.splits option.splits prod.splits if_splits)

lemma dao_skip:
  assumes "fs (output_path pid) = Some b"
  shows "download_and_optimize en pid w d fs =
     ([Print (Skip_exists pid (length b))],
      (case stdout_error en (Skip_exists pid (length b)) of
         None \<Rightarrow> Inr True | Some e \<Rightarrow> Inl e), fs)"
  using assms
  by (simp add: download_and_optimize_def path_exists_def getsize_def split: option.splits)

lemma dao_files_kept:
  assumes "download_and_optimize en pid w d fs = (evs, r, fs')" "fs p = Some b"
  shows "fs' p = Some b"
proof (cases "p = output_path pid")
  case True
  with assms show ?thesis by (simp add: dao_skip)
next
  case False
  with assms show ?thesis by (simp add: dao_files_other)
qed

lemma try_body_http:
  assumes "try_body en pid w d fs = (evs, r, fs')"
  shows "filter is_http_get evs =
     (if stdout_error en (Downloading (take 40 d)) = None
      then [Http_get (url pid w) headers 30] else [])"
  using assms
  by (auto simp: try_body_def save_def Let_def dest!: normalize_facts
      split: sum.splits option.splits prod.splits if_splits)

lemma try_body_save:
  assumes "try_body en pid w d fs = (evs, r, fs')" "e \<in> set evs" "is_save e"
  shows "\<exists>im. e = Save (output_path pid) ''WEBP'' 85 6 False im \<and> mode im = ''RGB''"
  using assms
  by (auto simp: try_body_def save_def Let_def WEBP_QUALITY_def dest!: normalize_facts
      split: sum.splits option.splits prod.splits if_splits)

lemma try_body_paste:
  assumes "try_body en pid w d fs = (evs, r, fs')"
  shows "Paste False \<notin> set evs"
  using assms
  by (auto simp: try_body_def save_def Let_def dest!: normalize_facts
      split: sum.splits option.splits prod.splits if_splits)

lemma try_body_success:
  assumes "try_body en pid w d fs = (evs, Inr u, fs')"
  shows "\<exists>im data. Save (output_path pid) ''WEBP'' 85 6 False im \<in> set evs \<and> mode im = ''RGB'' \<and>
           encode en ''WEBP'' im 85 6 False = Inr data \<and> fs' (output_path pid) = Some data"
  using assms
  by (auto simp: try_body_def save_def Let_def WEBP_QUALITY_def dest!: normalize_facts
      split: sum.splits option.splits prod.splits if_splits)

lemma try_body_no_progress:
  assumes "try_body en pid w d fs = (evs, r, fs')" "e \<in> set evs"
  shows "\<not> is_progress e \<and> \<not> is_report e"
  using assms
  by (auto simp: try_body_def save_def Let_def dest!: normalize_facts
      split: sum.splits option.splits prod.splits if_splits)

lemma dao_no_progress:
  assumes "download_and_optimize en pid w d fs = (evs, r, fs')" "e \<in> set evs"
  shows "\<not> is_progress e \<and> \<not> is_report e"
  using assms
  by (auto simp: download_and_optimize_def dest: try_body_no_progress
      split: sum.splits option.splits prod.splits if_splits)

lemma dao_save:
  assumes "download_and_optimize en pid w d fs = (evs, r, fs')" "e \<in> set evs" "is_save e"
  shows "\<exists>im. e = Save (output_path pid) ''WEBP'' 85 6 False im \<and> mode im = ''RGB''"
  using assms
  by (auto simp: download_and_optimize_def dest: try_body_save
      split: if_splits sum.splits prod.splits option.splits)

lemma dao_success:
  assumes "download_and_optimize en pid w d fs = (evs, Inr True, fs')" "fs (output_path pid) = None"
  shows "\<exists>im data. Save (output_path pid) ''WEBP'' 85 6 False im \<in> set evs \<and> mode im = ''RGB'' \<and>
           encode en ''WEBP'' im 85 6 False = Inr data \<and> fs' (output_path pid) = Some data"
proof -
  from assms have "try_body en pid w d fs = (evs, Inr (), fs')"
    by (auto simp: download_and_optimize_def path_exists_def
        split: if_splits sum.splits prod.splits option.splits)
  then show ?thesis by (rule try_body_success)
qed

lemma dao_http:
  assumes "download_and_optimize en pid w d fs = (evs, r, fs')"
  shows "filter is_http_get evs =
     (if fs (output_path pid) = None \<and> stdout_error en (Downloading (take 40 d)) = None
      then [Http_get (url pid w) headers 30] else [])"
  using assms
  by (auto simp: download_and_optimize_def path_exists_def getsize_def dest: try_body_http
      split: if_splits sum.splits prod.splits option.splits)

lemma main_loop_Cons:
  assumes "main_loop en i ((pid, w, d) # rest) (c, t) fs = (evs, Inr acc', fs')"
  obtains ev1 ok fs2 ev2 where
    "stdout_error en (Progress i (length IMAGES)) = None"
    "download_and_optimize en pid w d fs = (ev1, Inr ok, fs2)"
    "main_loop en (Suc i) rest
       (if ok then (Suc c, t + file_size fs2 (output_path pid)) else (c, t)) fs2 =
     (ev2, Inr acc', fs')"
    "evs = Print (Progress i (length IMAGES)) # ev1 @ ev2"
proof -
  from assms have p: "stdout_error en (Progress i (length IMAGES)) = None"
    by (auto split: option.splits)
  obtain ev1 r1 fs2 where d: "download_and_optimize en pid w d fs = (ev1, r1, fs2)"
    by (cases "download_and_optimize en pid w d fs") auto
  from assms p d obtain ok where r1: "r1 = Inr ok"
    by (cases r1) auto
  show ?thesis
  proof (cases ok)
    case True
    with d r1 have "fs2 (output_path pid) \<noteq> None" by (auto dest: dao_files_success)
    then obtain b where b: "fs2 (output_path pid) = Some b" by auto
    from assms p d r1 True b obtain ev2 where
      "main_loop en (Suc i) rest (Suc c, t + length b) fs2 = (ev2, Inr acc', fs')"
      "evs = Print (Progress i (length IMAGES)) # ev1 @ ev2"
      by (auto simp: path_exists_def getsize_def split: prod.splits)
    with that [OF p d [unfolded r1]] True b show ?thesis
      by (simp add: file_size_def)
  next
    case False
    from assms p d r1 False obtain ev2 where
      "main_loop en (Suc i) rest (c, t) fs2 = (ev2, Inr acc', fs')"
      "evs = Print (Progress i (length IMAGES)) # ev1 @ ev2"
      by (auto split: prod.splits)
    with that [OF p d [unfolded r1]] False show ?thesis by simp
  qed
qed

lemma main_loop_total:
  assumes "\<forall>m. stdout_error en m = None"
  shows "\<exists>evs acc' fs'. main_loop en i items acc fs = (evs, Inr acc', fs')"
proof (induction items arbitrary: i acc fs)
  case Nil
  show ?case by simp
next
  case (Cons item rest)
  obtain pid w d where item: "item = (pid, w, d)" by (cases item)
  obtain c t where acc: "acc = (c, t)" by (cases acc)
  obtain ev1 ok fs2 where d: "download_and_optimize en pid w d fs = (ev1, Inr ok, fs2)"
    using dao_total [OF assms] by blast
  have ex: "ok \<Longrightarrow> \<exists>b. fs2 (output_path pid) = Some b"
    using d by (auto dest: dao_files_success)
  obtain acc2 where acc2: "(if ok then
                   (if path_exists fs2 (output_path pid) then
                      (case getsize fs2 (output_path pid) of
                         Inl e \<Rightarrow> Inl e
                       | Inr n \<Rightarrow> Inr (Suc c, t + n))
                    else Inr (Suc c, t))
                 else Inr (c, t)) = (Inr acc2 :: exn + nat \<times> nat)"
    using ex by (cases ok) (auto simp: path_exists_def getsize_def)
  obtain ev2 acc' fs3 where "main_loop en (Suc i) rest acc2 fs2 = (ev2, Inr acc', fs3)"
    using Cons.IH by blast
  then show ?case
    unfolding item acc using d acc2 assms by (simp del: if_split)
qed

lemma main_loop_files_kept:
  "main_loop en i items acc fs = (evs, Inr acc', fs') \<Longrightarrow> fs p = Some b \<Longrightarrow> fs' p = Some b"
proof (induction items arbitrary: i acc fs evs)
  case Nil
  then show ?case by simp
next
  case (Cons item rest)
  obtain pid w d where item: "item = (pid, w, d)" by (cases item)
  obtain c t where acc: "acc = (c, t)" by (cases acc)
  from Cons.prems(1) [unfolded item acc] obtain ev1 ok fs2 ev2 where
    d: "download_and_optimize en pid w d fs = (ev1, Inr ok, fs2)" and
    rest: "main_loop en (Suc i) rest
       (if ok then (Suc c, t + file_size fs2 (output_path pid)) else (c, t)) fs2 =
     (ev2, Inr acc', fs')"
    by (rule main_loop_Cons)
  have "fs2 p = Some b" using d Cons.prems(2) by (rule dao_files_kept)
  with Cons.IH [OF rest] show ?case by simp
qed

lemma main_loop_files_other:
  "main_loop en i items acc fs = (evs, Inr acc', fs') \<Longrightarrow>
   p \<notin> set (map (\<lambda>item. output_path (fst item)) items) \<Longrightarrow> fs' p = fs p"
proof (induction items arbitrary: i acc fs evs)
  case Nil
  then show ?case by simp
next
  case (Cons item rest)
  obtain pid w d where item: "item = (pid, w, d)" by (cases item)
  obtain c t where acc: "acc = (c, t)" by (cases acc)
  from Cons.prems(1) [unfolded item acc] obtain ev1 ok fs2 ev2 where
    d: "download_and_optimize en pid w d fs = (ev1, Inr ok, fs2)" and
    rest: "main_loop en (Suc i) rest
       (if ok then (Suc c, t + file_size fs2 (output_path pid)) else (c, t)) fs2 =
     (ev2, Inr acc', fs')"
    by (rule main_loop_Cons)
  have fs2: "fs2 p = fs p"
    using dao_files_other [OF d] Cons.prems(2) item by simp
  have "fs' p = fs2 p" using Cons.IH [OF rest] Cons.prems(2) by simp
  then show ?case using fs2 by simp
qed

lemma main_loop_counts:
  "main_loop en i items (c, t) fs = (evs, Inr (c', t'), fs') \<Longrightarrow>
   length (outcomes en items fs) = length items \<and>
   c' = c + succeeded (outcomes en items fs) \<and>
   t' = t + successful_size fs' items (outcomes en items fs)"
proof (induction items arbitrary: i c t fs evs)
  case Nil
  then show ?case by (simp add: succeeded_def)
next
  case (Cons item rest)
  obtain pid w d where item: "item = (pid, w, d)" by (cases item)
  from Cons.prems [unfolded item] obtain ev1 ok fs2 ev2 where
    d: "download_and_optimize en pid w d fs = (ev1, Inr ok, fs2)" and
    rest0: "main_loop en (Suc i) rest
       (if ok then (Suc c, t + file_size fs2 (output_path pid)) else (c, t)) fs2 =
     (ev2, Inr (c', t'), fs')"
    by (rule main_loop_Cons)
  let ?c = "if ok then Suc c else c"
  let ?t = "if ok then t + file_size fs2 (output_path pid) else t"
  from rest0 have rest: "main_loop en (Suc i) rest (?c, ?t) fs2 = (ev2, Inr (c', t'), fs')"
    by (simp split: if_splits)
  note ih = Cons.IH [OF rest]
  have out: "outcomes en ((pid, w, d) # rest) fs = ok # outcomes en rest fs2"
    using d by simp
  have same: "file_size fs' (output_path pid) = file_size fs2 (output_path pid)" if ok
  proof -
    from that d have "fs2 (output_path pid) \<noteq> None" by (auto dest: dao_files_success)
    then obtain b where b: "fs2 (output_path pid) = Some b" by auto
    from main_loop_files_kept [OF rest b] b show ?thesis by (simp add: file_size_def)
  qed
  show ?case
    using ih same unfolding item out by (auto simp: succeeded_def)
qed

lemma main_loop_success_files:
  "main_loop en i items acc fs = (evs, Inr acc', fs') \<Longrightarrow> k < length items \<Longrightarrow>
   outcomes en items fs ! k \<Longrightarrow> fs' (output_path (fst (items ! k))) \<noteq> None"
proof (induction items arbitrary: i acc fs evs k)
  case Nil
  then show ?case by simp
next
  case (Cons item rest)
  obtain pid w d where item: "item = (pid, w, d)" by (cases item)
  obtain c t where acc: "acc = (c, t)" by (cases acc)
  from Cons.prems(1) [unfolded item acc] obtain ev1 ok fs2 ev2 where
    d: "download_and_optimize en pid w d fs = (ev1, Inr ok, fs2)" and
    rest: "main_loop en (Suc i) rest
       (if ok then (Suc c, t + file_size fs2 (output_path pid)) else (c, t)) fs2 =
     (ev2, Inr acc', fs')"
    by (rule main_loop_Cons)
  have out: "outcomes en (item # rest) fs = ok # outcomes en rest fs2"
    using d item by simp
  show ?case
  proof (cases k)
    case 0
    with Cons.prems(3) out have ok by simp
    with d have "fs2 (output_path pid) \<noteq> None" by (auto dest: dao_files_success)
    then obtain b where b: "fs2 (output_path pid) = Some b" by auto
    from main_loop_files_kept [OF rest b] show ?thesis using 0 item by simp
  next
    case (Suc j)
    then show ?thesis
      using Cons.IH [OF rest, of j] Cons.prems(2,3) out by simp
  qed
qed

lemma main_loop_existing:
  "main_loop en i items acc fs = (evs, Inr acc', fs') \<Longrightarrow> k < length items \<Longrightarrow>
   fs (output_path (fst (items ! k))) = Some b \<Longrightarrow> outcomes en items fs ! k"
proof (induction items arbitrary: i acc fs evs k)
  case Nil
  then show ?case by simp
next
  case (Cons item rest)
  obtain pid w d where item: "item = (pid, w, d)" by (cases item)
  obtain c t where acc: "acc = (c, t)" by (cases acc)
  from Cons.prems(1) [unfolded item acc] obtain ev1 ok fs2 ev2 where
    d: "download_and_optimize en pid w d fs = (ev1, Inr ok, fs2)" and
    rest: "main_loop en (Suc i) rest
       (if ok then (Suc c, t + file_size fs2 (output_path pid)) else (c, t)) fs2 =
     (ev2, Inr acc', fs')"
    by (rule main_loop_Cons)
  have out: "outcomes en (item # rest) fs = ok # outcomes en rest fs2"
    using d item by simp
  show ?case
  proof (cases k)
    case 0
    with Cons.prems(3) item have "fs (output_path pid) = Some b" by simp
    then have "download_and_optimize en pid w d fs =
        ([Print (Skip_exists pid (length b))],
         (case stdout_error en (Skip_exists pid (length b)) of
            None \<Rightarrow> Inr True | Some e \<Rightarrow> Inl e), fs)"
      by (simp add: dao_skip)
    with d have ok by (auto split: option.splits)
    with out 0 show ?thesis by simp
  next
    case (Suc j)
    with Cons.prems have j: "j < length rest" "fs (output_path (fst (rest ! j))) = Some b"
      by simp_all
    have "fs2 (output_path (fst (rest ! j))) = Some b"
      using d j(2) by (rule dao_files_kept)
    with Cons.IH [OF rest, of j] j(1) out Suc show ?thesis by simp
  qed
qed

lemma main_loop_progress:
  "main_loop en i items acc fs = (evs, Inr acc', fs') \<Longrightarrow>
   filter is_progress evs = map (\<lambda>k. Print (Progress k (length IMAGES))) [i ..< i + length items] \<and>
   filter is_report evs = []"
proof (induction items arbitrary: i acc fs evs)
  case Nil
  then show ?case by simp
next
  case (Cons item rest)
  obtain pid w d where item: "item = (pid, w, d)" by (cases item)
  obtain c t where acc: "acc = (c, t)" by (cases acc)
  from Cons.prems(1) [unfolded item acc] obtain ev1 ok fs2 ev2 where
    d: "download_and_optimize en pid w d fs = (ev1, Inr ok, fs2)" and
    rest: "main_loop en (Suc i) rest
       (if ok then (Suc c, t + file_size fs2 (output_path pid)) else (c, t)) fs2 =
     (ev2, Inr acc', fs')" and
    evs: "evs = Print (Progress i (length IMAGES)) # ev1 @ ev2"
    by (rule main_loop_Cons)
  have ev1: "filter is_progress ev1 = []" "filter is_report ev1 = []"
    using dao_no_progress [OF d] by (simp_all add: filter_empty_conv)
  have "i < i + length (item # rest)" by simp
  then have "[i ..< i + length (item # rest)] = i # [Suc i ..< Suc i + length rest]"
    by (simp add: upt_conv_Cons del: upt_Suc)
  then show ?case
    using Cons.IH [OF rest] ev1 unfolding evs by (simp del: upt_Suc)
qed

lemma final_files_Cons: "final_files fs (c # cs) = final_files (snd (snd c)) cs"
  by (simp add: final_files_def)

lemma length_calls: "length (calls en items fs) = length items"
  by (induction items arbitrary: fs) auto

lemma main_loop_calls:
  "main_loop en i items acc fs = (evs, Inr acc', fs') \<Longrightarrow>
   evs = run_events i (calls en items fs) \<and>
   fs' = final_files fs (calls en items fs) \<and>
   map (\<lambda>c. fst (snd c)) (calls en items fs) = map Inr (outcomes en items fs)"
proof (induction items arbitrary: i acc fs evs)
  case Nil
  then show ?case by (simp add: final_files_def)
next
  case (Cons item rest)
  obtain pid w d where item: "item = (pid, w, d)" by (cases item)
  obtain c t where acc: "acc = (c, t)" by (cases acc)
  from Cons.prems(1) [unfolded item acc] obtain ev1 ok fs2 ev2 where
    d: "download_and_optimize en pid w d fs = (ev1, Inr ok, fs2)" and
    rest: "main_loop en (Suc i) rest
       (if ok then (Suc c, t + file_size fs2 (output_path pid)) else (c, t)) fs2 =
     (ev2, Inr acc', fs')" and
    evs: "evs = Print (Progress i (length IMAGES)) # ev1 @ ev2"
    by (rule main_loop_Cons)
  show ?case
    using Cons.IH [OF rest] d unfolding item evs by (simp add: final_files_Cons)
qed

lemma prints_None: "prints en ms = (evs, None) \<Longrightarrow> evs = map Print ms"
  by (induction ms arbitrary: evs) (auto split: option.splits prod.splits)

lemma prints_ok: "\<forall>m. stdout_error en m = None \<Longrightarrow> prints en ms = (map Print ms, None)"
  by (induction ms) auto

lemma main_inversion:
  assumes "main en fs = (evs, Inr (), fs')"
  obtains ev2 c t where
    "makedirs_error en OUTPUT_DIR = None"
    "main_loop en 1 IMAGES (0, 0) fs = (ev2, Inr (c, t), fs')"
    "evs = map Print heading @ [Makedirs OUTPUT_DIR] @ ev2 @ map Print (summary c t @ closing c)"
proof -
  obtain ev0 r0 where p0: "prints en heading = (ev0, r0)" by (cases "prints en heading")
  with assms have r0: "r0 = None" by (auto simp: main_def split: option.splits)
  from assms p0 r0 have mk: "makedirs_error en OUTPUT_DIR = None"
    by (auto simp: main_def split: option.splits)
  obtain ev2 r2 fs2 where loop: "main_loop en 1 IMAGES (0, 0) fs = (ev2, r2, fs2)"
    by (cases "main_loop en 1 IMAGES (0, 0) fs") auto
  from assms p0 r0 mk loop obtain c t where r2: "r2 = Inr (c, t)"
    by (cases r2) (auto simp: main_def)
  obtain ev3 r3 where p3: "prints en (summary c t @ closing c) = (ev3, r3)"
    by (cases "prints en (summary c t @ closing c)")
  from assms p0 r0 mk loop r2 p3 have r3: "r3 = None" and fs2: "fs2 = fs'"
    and evs: "evs = ev0 @ [Makedirs OUTPUT_DIR] @ ev2 @ ev3"
    by (auto simp: main_def split: option.splits)
  from prints_None [OF p0 [unfolded r0]] prints_None [OF p3 [unfolded r3]]
  have "evs = map Print heading @ [Makedirs OUTPUT_DIR] @ ev2 @ map Print (summary c t @ closing c)"
    using evs by simp
  with that [OF mk loop [unfolded r2 fs2]] show ?thesis .
qed

lemma main_total:
  assumes "\<forall>m. stdout_error en m = None" "makedirs_error en OUTPUT_DIR = None"
  shows "\<exists>ev2 c t fs'.
     main_loop en 1 IMAGES (0, 0) fs = (ev2, Inr (c, t), fs') \<and>
     main en fs =
       (map Print heading @ [Makedirs OUTPUT_DIR] @ ev2 @ map Print (summary c t @ closing c),
        Inr (), fs')"
proof -
  obtain ev2 acc' fs' where loop: "main_loop en 1 IMAGES (0, 0) fs = (ev2, Inr acc', fs')"
    using main_loop_total [OF assms(1)] by blast
  obtain c t where acc': "acc' = (c, t)" by (cases acc')
  show ?thesis
    using loop assms(2) unfolding acc'
    by (simp add: main_def prints_ok [OF assms(1)])
qed

lemma report_lines:
  "filter is_report (map Print heading) = []"
  "filter is_progress (map Print heading) = []"
  "filter is_report (map Print (summary c t @ closing c)) =
     [Print (Completed c (length IMAGES)), Print (Total_size t),
      (if c = length IMAGES then Print Success_msg
       else Print (Warning_msg (int (length IMAGES) - int c)))]"
  "filter is_progress (map Print (summary c t @ closing c)) = []"
  by (simp_all add: heading_def summary_def closing_def)

lemma main_files_other:
  assumes "main en fs = (evs, Inr (), fs')" "p \<notin> set (map (\<lambda>item. output_path (fst item)) IMAGES)"
  shows "fs' p = fs p"
proof -
  from assms(1) obtain ev2 c t where "main_loop en 1 IMAGES (0, 0) fs = (ev2, Inr (c, t), fs')"
    by (rule main_inversion)
  then show ?thesis using assms(2) by (rule main_loop_files_other)
qed

lemma main_files_kept:
  assumes "main en fs = (evs, Inr (), fs')" "fs p = Some b"
  shows "fs' p = Some b"
proof -
  from assms(1) obtain ev2 c t where "main_loop en 1 IMAGES (0, 0) fs = (ev2, Inr (c, t), fs')"
    by (rule main_inversion)
  then show ?thesis using assms(2) by (rule main_loop_files_kept)
qed

lemma succeeded_le: "succeeded oks \<le> length oks"
  by (simp add: succeeded_def)

lemma succeeded_all: "length oks = n \<Longrightarrow> succeeded oks = n \<Longrightarrow> k < n \<Longrightarrow> oks ! k"
  unfolding succeeded_def
  by (metis filter_True length_filter_less linorder_neq_iff nth_mem filter_id_conv)

lemma main_report:
  assumes "main en fs = (evs, Inr (), fs')"
  shows "filter is_report evs =
     [Print (Completed (succeeded (outcomes en IMAGES fs)) (length IMAGES)),
      Print (Total_size (successful_size fs' IMAGES (outcomes en IMAGES fs))),
      (if succeeded (outcomes en IMAGES fs) = length IMAGES then Print Success_msg
       else Print (Warning_msg (int (length IMAGES) - int (succeeded (outcomes en IMAGES fs)))))]"
    and "length (outcomes en IMAGES fs) = length IMAGES"
    and "\<forall>k < length IMAGES. outcomes en IMAGES fs ! k \<longrightarrow>
           fs' (output_path (fst (IMAGES ! k))) \<noteq> None"
    and "\<forall>k < length IMAGES. fs (output_path (fst (IMAGES ! k))) \<noteq> None \<longrightarrow>
           outcomes en IMAGES fs ! k"
proof -
  from assms obtain ev2 c t where
    loop: "main_loop en 1 IMAGES (0, 0) fs = (ev2, Inr (c, t), fs')" and
    evs: "evs = map Print heading @ [Makedirs OUTPUT_DIR] @ ev2 @
                map Print (summary c t @ closing c)"
    by (rule main_inversion)
  from main_loop_counts [OF loop]
  have len: "length (outcomes en IMAGES fs) = length IMAGES"
    and c: "c = succeeded (outcomes en IMAGES fs)"
    and t: "t = successful_size fs' IMAGES (outcomes en IMAGES fs)" by simp_all
  show "length (outcomes en IMAGES fs) = length IMAGES" by (rule len)
  show "filter is_report evs =
     [Print (Completed (succeeded (outcomes en IMAGES fs)) (length IMAGES)),
      Print (Total_size (successful_size fs' IMAGES (outcomes en IMAGES fs))),
      (if succeeded (outcomes en IMAGES fs) = length IMAGES then Print Success_msg
       else Print (Warning_msg (int (length IMAGES) - int (succeeded (outcomes en IMAGES fs)))))]"
    unfolding evs using main_loop_progress [OF loop] c t
    by (simp add: report_lines del: map_append)
  show "\<forall>k < length IMAGES. outcomes en IMAGES fs ! k \<longrightarrow>
           fs' (output_path (fst (IMAGES ! k))) \<noteq> None"
    using main_loop_success_files [OF loop] by simp
  show "\<forall>k < length IMAGES. fs (output_path (fst (IMAGES ! k))) \<noteq> None \<longrightarrow>
           outcomes en IMAGES fs ! k"
    using main_loop_existing [OF loop] by auto
qed

lemma filter_total_size_report:
  "filter is_total_size evs = filter is_total_size (filter is_report evs)"
proof -
  have "is_report e \<and> is_total_size e \<longleftrightarrow> is_total_size e" for e
    by (cases e rule: is_total_size.cases) simp_all
  then show ?thesis by simp
qed

lemma outcomes_all_exist:
  "\<forall>m. stdout_error en m = None \<Longrightarrow>
   \<forall>item \<in> set items. fs (output_path (fst item)) \<noteq> None \<Longrightarrow>
   outcomes en items fs = replicate (length items) True"
proof (induction items)
  case Nil
  show ?case by simp
next
  case (Cons item rest)
  obtain pid w d where item: "item = (pid, w, d)" by (cases item)
  from Cons.prems obtain b where "fs (output_path pid) = Some b" using item by auto
  then show ?case using Cons item by (simp add: dao_skip)
qed

lemma distinct_output_paths: "distinct (map (\<lambda>item. output_path (fst item)) IMAGES)"
  by (simp add: IMAGES_def output_path_def)

lemma in_dir_output_paths: "\<forall>item \<in> set IMAGES. in_dir OUTPUT_DIR (output_path (fst item))"
  by (simp add: IMAGES_def output_path_def in_dir_def OUTPUT_DIR_def)

lemma fs_full_outputs: "\<forall>item \<in> set IMAGES. fs_full (output_path (fst item)) \<noteq> None"
  by (simp add: fs_full_def)

lemma logo_not_output: "''assets/images/logo.png'' \<notin> set (map (\<lambda>item. output_path (fst item)) IMAGES)"
  by (simp add: IMAGES_def output_path_def OUTPUT_DIR_def)

lemma env_status_ok:
  "\<forall>m. stdout_error (env_status code) m = None" "makedirs_error (env_status code) OUTPUT_DIR = None"
  by (simp_all add: env_status_def)

lemma env_mixed_ok:
  "\<forall>m. stdout_error env_mixed m = None" "makedirs_error env_mixed OUTPUT_DIR = None"
  by (simp_all add: env_mixed_def)

lemma full_run:
  "\<exists>evs fs'. main (env_status 200) fs_full = (evs, Inr (), fs') \<and>
     fs' ''assets/images/logo.png'' = Some [7]"
proof -
  from main_total [OF env_status_ok, of 200 fs_full]
  obtain evs fs' where m: "main (env_status 200) fs_full = (evs, Inr (), fs')" by blast
  have "fs' ''assets/images/logo.png'' = fs_full ''assets/images/logo.png''"
    using m logo_not_output by (rule main_files_other)
  with m show ?thesis by (simp add: fs_full_def)
qed

lemma first_run:
  "\<exists>evs fs'. main (env_status 200) fs_first = (evs, Inr (), fs')"
  using main_total [OF env_status_ok, of 200 fs_first] by blast

lemma normalize_loaded:
  assumes m: "mode img \<in> set [''RGBA'', ''LA'', ''P'']" and ld: "load_error img = None"
  shows "\<exists>img2 bs.
     (if mode img = ''P'' then convert en img ''RGBA'' else Inr img) = Inr img2 \<and>
     img2 = (if mode img = ''P''
             then img\<lparr>mode := ''RGBA'',
                      pixels := map (\<lambda>px. entry_rgba (palette_entry img (hd px))) (pixels img),
                      palette := []\<rparr>
             else img) \<and>
     mode img2 \<in> set [''RGBA'', ''LA''] \<and> split img2 = Inr bs \<and> bs \<noteq> [] \<and>
     normalize_mode en img =
       ((if mode img = ''P''
         then [Image_new ''RGB'' (size_wh img) [255, 255, 255], Convert ''P'' ''RGBA'']
         else [Image_new ''RGB'' (size_wh img) [255, 255, 255]]) @ [Split, Paste True],
        Inr (paste (Image_new_im ''RGB'' (size_wh img) [255, 255, 255]) img2 (Some (last bs))))"
proof -
  let ?img2 = "if mode img = ''P''
             then img\<lparr>mode := ''RGBA'',
                      pixels := map (\<lambda>px. entry_rgba (palette_entry img (hd px))) (pixels img),
                      palette := []\<rparr>
             else img"
  have c: "(if mode img = ''P'' then convert en img ''RGBA'' else Inr img) = Inr ?img2"
    using ld by (simp add: convert_P_RGBA)
  have m2: "mode ?img2 \<in> set [''RGBA'', ''LA'']" using m by auto
  have ld2: "load_error ?img2 = None" using ld by simp
  obtain bs where sp: "split ?img2 = Inr bs" using split_loaded [OF ld2] by blast
  have ne: "bs \<noteq> []" using m2 sp by (rule split_nonempty)
  then obtain b bs' where bs: "bs = b # bs'" by (cases bs) auto
  have "normalize_mode en img =
       ((if mode img = ''P''
         then [Image_new ''RGB'' (size_wh img) [255, 255, 255], Convert ''P'' ''RGBA'']
         else [Image_new ''RGB'' (size_wh img) [255, 255, 255]]) @ [Split, Paste True],
        Inr (paste (Image_new_im ''RGB'' (size_wh img) [255, 255, 255]) ?img2 (Some (last bs))))"
  proof (cases "mode img = ''P''")
    case True
    with sp bs ld show ?thesis
      by (simp add: normalize_mode_def Let_def convert_P_RGBA)
  next
    case False
    with sp bs m show ?thesis
      by (auto simp: normalize_mode_def Let_def)
  qed
  with c m2 sp ne show ?thesis by blast
qed

lemma normalize_load_fails:
  assumes m: "mode img \<in> set [''RGBA'', ''LA'', ''P'']" and ld: "load_error img = Some e"
  shows "normalize_mode en img =
       ((if mode img = ''P''
         then [Image_new ''RGB'' (size_wh img) [255, 255, 255], Convert ''P'' ''RGBA'']
         else [Image_new ''RGB'' (size_wh img) [255, 255, 255], Split]), Inl e)"
proof (cases "mode img = ''P''")
  case True
  with ld show ?thesis by (simp add: normalize_mode_def Let_def convert_P_RGBA)
next
  case False
  have "split img = Inl e" using ld by (simp add: split_Inl)
  with False m show ?thesis by (auto simp: normalize_mode_def Let_def)
qed

lemma example_normalize:
  "normalize_mode en example_rgba =
     ([Image_new ''RGB'' (2, 1) [255, 255, 255], Split, Paste True],
      Inr \<lparr>mode = ''RGB'', size_wh = (2, 1), pixels = [[255, 255, 255], [132, 137, 142]],
           palette = [], load_error = None\<rparr>)"
proof -
  have r2: "replicate 2 x = [x, x]" for x :: "nat list"
    by (simp add: numeral_2_eq_2)
  show ?thesis
    by (simp add: normalize_mode_def example_rgba_def split_def bands_of_def paste_def
        Image_new_im_def rgb_bands_def BLEND8_def DIV255_def Let_def upt_rec r2)
qed

lemma example_url:
  "url ''photo-1558904541-efa843a96f01'' 1200 =
     ''https://images.unsplash.com/photo-1558904541-efa843a96f01?w=1200&q=80''"
  by (simp add: url_def str_int_def str_nat.simps)

lemma example_download:
  "download_and_optimize (env_status 200) ''photo-1558904541-efa843a96f01'' 1200
       ''Service image'' Map.empty =
     ([Print (Downloading ''Service image''),
       Http_get ''https://images.unsplash.com/photo-1558904541-efa843a96f01?w=1200&q=80''
         headers 30,
       Image_open [1, 2, 3],
       Image_new ''RGB'' (2, 1) [255, 255, 255], Split, Paste True,
       Save ''assets/images/photo-1558904541-efa843a96f01.webp'' ''WEBP'' 85 6 False
         \<lparr>mode = ''RGB'', size_wh = (2, 1), pixels = [[255, 255, 255], [132, 137, 142]],
          palette = [], load_error = None\<rparr>,
       Print (Saved 2 3)],
      Inr True,
      [''assets/images/photo-1558904541-efa843a96f01.webp'' \<mapsto> [9, 9]])"
proof -
  have p: "output_path ''photo-1558904541-efa843a96f01'' =
      ''assets/images/photo-1558904541-efa843a96f01.webp''"
    by (simp add: output_path_def OUTPUT_DIR_def)
  have e: "http_get (env_status 200) = (\<lambda>u h t. Inr \<lparr>status_code = 200, content = [1, 2, 3]\<rparr>)"
    "image_open (env_status 200) = (\<lambda>b. Inr example_rgba)"
    "encode (env_status 200) = (\<lambda>f im q m l. Inr [9, 9])"
    "write_error (env_status 200) = (\<lambda>p. None)"
    "stdout_error (env_status 200) = (\<lambda>m. None)"
    by (simp_all add: env_status_def)
  show ?thesis
    by (simp add: download_and_optimize_def path_exists_def try_body_def raise_for_status_def
        save_def getsize_def Let_def WEBP_QUALITY_def example_url p e example_normalize)
qed

lemma count_true_calls:
  "map (\<lambda>x. fst (snd x)) cs = map Inr oks \<Longrightarrow>
   length (filter (\<lambda>x. fst (snd x) = Inr True) cs) = succeeded oks"
proof (induction cs arbitrary: oks)
  case Nil
  then show ?case by (simp add: succeeded_def)
next
  case (Cons c cs)
  then obtain ok oks' where oks: "oks = ok # oks'" by (cases oks) auto
  with Cons.prems have "fst (snd c) = Inr ok" "map (\<lambda>x. fst (snd x)) cs = map Inr oks'"
    by simp_all
  with Cons.IH [of oks'] oks show ?case by (auto simp: succeeded_def)
qed

lemma mixed_calls:
  "map (\<lambda>x. fst (snd x)) (calls env_mixed (take 5 IMAGES) Map.empty) =
     [Inr False, Inr False, Inr False, Inr False, Inr True]"
  by (simp add: IMAGES_def env_mixed_def download_and_optimize_def path_exists_def try_body_def
      raise_for_status_def example_normalize save_def getsize_def Let_def url_def str_int_def
      str_nat.simps output_path_def OUTPUT_DIR_def)

subsection \<open>Colour mode normalisation\<close>

text \<open>
  Claim C1, as the code has it. For every well-formed source image in one of the modes
  the script composites (RGBA, LA or P): whenever normalisation returns an image, it
  took the masked paste onto the white background and the image is RGB, of the same
  size, with every pixel that is fully transparent in the source (alpha 0) white
  \<open>(255, 255, 255)\<close>; and it does return an image whenever the pixel data decodes.
\<close>

theorem normalize_transparent_white:
  assumes m: "mode img \<in> set [''RGBA'', ''LA'', ''P'']" and wf: "wf_image img"
    and i: "i < length (pixels img)" and a: "alpha_at img i = Some 0"
  shows "(load_error img = None \<longrightarrow>
            (\<exists>evs out. normalize_mode en img = (evs, Inr out) \<and> Paste True \<in> set evs \<and>
               mode out = ''RGB'' \<and> size_wh out = size_wh img \<and>
               length (pixels out) = length (pixels img) \<and> pixels out ! i = [255, 255, 255])) \<and>
         (\<forall>evs out. normalize_mode en img = (evs, Inr out) \<longrightarrow>
            Paste True \<in> set evs \<and> mode out = ''RGB'' \<and> size_wh out = size_wh img \<and>
            length (pixels out) = length (pixels img) \<and> pixels out ! i = [255, 255, 255])"
proof -
  have main: "\<exists>evs out. normalize_mode en img = (evs, Inr out) \<and> Paste True \<in> set evs \<and>
               mode out = ''RGB'' \<and> size_wh out = size_wh img \<and>
               length (pixels out) = length (pixels img) \<and> pixels out ! i = [255, 255, 255]"
    if ld: "load_error img = None"
  proof -
    let ?bg = "Image_new_im ''RGB'' (size_wh img) [255, 255, 255]"
    from normalize_loaded [OF m ld, of en] obtain img2 bs where
      img2: "img2 = (if mode img = ''P''
             then img\<lparr>mode := ''RGBA'',
                      pixels := map (\<lambda>px. entry_rgba (palette_entry img (hd px))) (pixels img),
                      palette := []\<rparr>
             else img)" and
      m2: "mode img2 \<in> set [''RGBA'', ''LA'']" and sp: "split img2 = Inr bs" and
      norm: "normalize_mode en img =
       ((if mode img = ''P''
         then [Image_new ''RGB'' (size_wh img) [255, 255, 255], Convert ''P'' ''RGBA'']
         else [Image_new ''RGB'' (size_wh img) [255, 255, 255]]) @ [Split, Paste True],
        Inr (paste ?bg img2 (Some (last bs))))"
      by blast
    let ?out = "paste ?bg img2 (Some (last bs))"
    have len_entry: "length (entry_rgba e) = 4" for e by (cases e) simp
    have last_entry: "last (entry_rgba e) = entry_alpha e" for e by (cases e) simp
    have sz: "size_wh img2 = size_wh img" "length (pixels img2) = length (pixels img)"
      using img2 by simp_all
    have wf2: "wf_image img2"
      using wf img2 by (auto simp: wf_image_def bands_of_def len_entry)
    have i2: "i < length (pixels img2)" using i sz by simp
    have al: "last (pixels img2 ! i) = 0"
      using a m i img2 by (auto simp: alpha_at_def has_alpha_channel_def last_entry)
    have "pixels (paste (Image_new_im ''RGB'' (size_wh img2) [255, 255, 255]) img2
                    (Some (last bs))) ! i = [255, 255, 255]"
      by (rule composite_white [OF m2 wf2 i2 al sp])
    then have px: "pixels ?out ! i = [255, 255, 255]" using sz by simp
    have "length (pixels ?out) = length (pixels img)"
      using wf sz by (simp add: paste_def pixels_last_split [OF m2 sp] wf_image_def Image_new_im_def)
    moreover have "mode ?out = ''RGB''" "size_wh ?out = size_wh img"
      by (simp_all add: paste_def Image_new_im_def)
    ultimately show ?thesis using norm px by auto
  qed
  have "load_error img = None" if "normalize_mode en img = (evs, Inr out)" for evs out
  proof (cases "load_error img")
    case None
    then show ?thesis .
  next
    case (Some e)
    from normalize_load_fails [OF m Some, of en] that show ?thesis by simp
  qed
  with main show ?thesis by fastforce
qed

theorem normalize_transparent_white_witness:
  "mode example_rgba \<in> set [''RGBA'', ''LA'', ''P''] \<and> wf_image example_rgba \<and>
   0 < length (pixels example_rgba) \<and> alpha_at example_rgba 0 = Some 0 \<and>
   load_error example_rgba = None \<and>
   normalize_mode (env_status 200) example_rgba =
     ([Image_new ''RGB'' (2, 1) [255, 255, 255], Split, Paste True],
      Inr \<lparr>mode = ''RGB'', size_wh = (2, 1), pixels = [[255, 255, 255], [132, 137, 142]],
           palette = [], load_error = None\<rparr>) \<and>
   pixels \<lparr>mode = ''RGB'', size_wh = (2, 1), pixels = [[255, 255, 255], [132, 137, 142]],
           palette = [], load_error = None\<rparr> ! 0 = [255, 255, 255]"
proof -
  have h: "mode example_rgba \<in> set [''RGBA'', ''LA'', ''P'']" "wf_image example_rgba"
    "0 < length (pixels example_rgba)" "alpha_at example_rgba 0 = Some 0"
    by (simp_all add: example_rgba_def wf_image_def bands_of_def alpha_at_def
        has_alpha_channel_def)
  have ld: "load_error example_rgba = None" by (simp add: example_rgba_def)
  from normalize_transparent_white [OF h, of "env_status 200"] example_normalize
  have "pixels \<lparr>mode = ''RGB'', size_wh = (2, 1), pixels = [[255, 255, 255], [132, 137, 142]],
           palette = [], load_error = None\<rparr> ! 0 = [255, 255, 255]"
    by blast
  with h ld example_normalize show ?thesis by blast
qed

text \<open>
  The claim as stated, for every source image with an alpha channel, fails in mode PA
  (palette with alpha, which PIL's TIFF reader produces): the script does not
  composite such an image but converts it with \<^verbatim>\<open>convert('RGB')\<close>, which drops the
  alpha band; the fully transparent pixel keeps its palette colour \<open>(10, 20, 30)\<close>.
\<close>

theorem alpha_pa_not_white:
  "has_alpha_channel (mode example_pa) \<and> wf_image example_pa \<and>
   alpha_at example_pa 0 = Some 0 \<and> load_error example_pa = None \<and>
   normalize_mode (env_status 200) example_pa =
     ([Convert ''PA'' ''RGB''],
      Inr \<lparr>mode = ''RGB'', size_wh = (1, 1), pixels = [[10, 20, 30]], palette = [],
           load_error = None\<rparr>)"
  by (simp add: example_pa_def has_alpha_channel_def wf_image_def bands_of_def alpha_at_def
      normalize_mode_def convert_def palette_entry_def)

text \<open>
  Claim C9, as the code has it. The paste without a mask is never executed, neither by
  the normalisation of any image in any world nor by any call of
  \<^verbatim>\<open>download_and_optimize\<close>: whenever the compositing branch is entered (mode RGBA,
  LA or P), the image after the palette conversion has mode RGBA or LA. The masked
  paste is executed, and an image returned, whenever the pixel data decodes; when
  decoding raises (in \<^verbatim>\<open>convert\<close> or in \<^verbatim>\<open>split\<close>), that exception leaves the
  normalisation and no paste is executed.
\<close>

theorem plain_paste_unreachable:
  "Paste False \<notin> set (fst (normalize_mode en img)) \<and>
   (mode img \<in> set [''RGBA'', ''LA'', ''P''] \<longrightarrow>
      (\<forall>img2. (if mode img = ''P'' then convert en img ''RGBA'' else Inr img) = Inr img2 \<longrightarrow>
           mode img2 \<in> set [''RGBA'', ''LA'']) \<and>
      (load_error img = None \<longrightarrow>
           Paste True \<in> set (fst (normalize_mode en img)) \<and>
           (\<exists>out. snd (normalize_mode en img) = Inr out)) \<and>
      (\<forall>e. load_error img = Some e \<longrightarrow>
           Paste True \<notin> set (fst (normalize_mode en img)) \<and>
           snd (normalize_mode en img) = Inl e)) \<and>
   (download_and_optimize en photo_id width description fs = (evs, r, fs') \<longrightarrow>
      Paste False \<notin> set evs)"
proof (intro conjI impI allI)
  obtain ev r where n: "normalize_mode en img = (ev, r)" by (cases "normalize_mode en img")
  from normalize_facts [OF n] show "Paste False \<notin> set (fst (normalize_mode en img))"
    using n by simp
next
  fix img2
  assume "mode img \<in> set [''RGBA'', ''LA'', ''P'']"
    and "(if mode img = ''P'' then convert en img ''RGBA'' else Inr img) = Inr img2"
  then show "mode img2 \<in> set [''RGBA'', ''LA'']"
    by (auto dest: convert_mode split: if_splits)
next
  assume m: "mode img \<in> set [''RGBA'', ''LA'', ''P'']" and ld: "load_error img = None"
  from normalize_loaded [OF m ld, of en]
  show "Paste True \<in> set (fst (normalize_mode en img))"
    "\<exists>out. snd (normalize_mode en img) = Inr out"
    by auto
next
  fix e
  assume m: "mode img \<in> set [''RGBA'', ''LA'', ''P'']" and ld: "load_error img = Some e"
  from normalize_load_fails [OF m ld, of en]
  show "Paste True \<notin> set (fst (normalize_mode en img))" "snd (normalize_mode en img) = Inl e"
    by auto
next
  assume d: "download_and_optimize en photo_id width description fs = (evs, r, fs')"
  then show "Paste False \<notin> set evs"
    by (auto simp: download_and_optimize_def dest: try_body_paste
        split: if_splits sum.splits prod.splits option.splits)
qed

theorem plain_paste_unreachable_witness:
  "mode example_rgba \<in> set [''RGBA'', ''LA'', ''P''] \<and> load_error example_rgba = None \<and>
   Paste False \<notin> set (fst (normalize_mode (env_status 200) example_rgba)) \<and>
   Paste True \<in> set (fst (normalize_mode (env_status 200) example_rgba)) \<and>
   mode example_truncated \<in> set [''RGBA'', ''LA'', ''P''] \<and>
   load_error example_truncated = Some OSError \<and>
   snd (normalize_mode (env_status 200) example_truncated) = Inl OSError"
proof -
  have m: "mode example_rgba \<in> set [''RGBA'', ''LA'', ''P'']" "load_error example_rgba = None"
    by (simp_all add: example_rgba_def)
  have t: "mode example_truncated \<in> set [''RGBA'', ''LA'', ''P'']"
    "load_error example_truncated = Some OSError"
    by (simp_all add: example_truncated_def)
  show ?thesis
    using m t
      plain_paste_unreachable [where img = example_rgba and en = "env_status 200"]
      plain_paste_unreachable [where img = example_truncated and en = "env_status 200"]
    by blast
qed

text \<open>
  The claim as stated, that the masked paste always executes once the compositing
  branch is entered, fails on a truncated payload: the header gives mode RGBA, the
  branch is entered, and \<^verbatim>\<open>img.split()\<close> raises while decoding, after
  \<^verbatim>\<open>Image.new\<close> and before any paste.
\<close>

theorem truncated_payload_no_paste:
  "mode example_truncated \<in> set [''RGBA'', ''LA'', ''P''] \<and>
   normalize_mode (env_status 200) example_truncated =
     ([Image_new ''RGB'' (2, 1) [255, 255, 255], Split], Inl OSError) \<and>
   Paste True \<notin> set [Image_new ''RGB'' (2, 1) [255, 255, 255], Split]"
  by (simp add: example_truncated_def normalize_mode_def split_def Let_def)

subsection \<open>The skip of an existing output\<close>



subsection \<open>A failing status\<close>

text \<open>
  Claim C3, as the code has it. When the output file does not exist and the fetch
  returns a 4xx or 5xx status (the statuses that \<^verbatim>\<open>raise_for_status\<close> rejects),
  \<^verbatim>\<open>download_and_optimize\<close> leaves every file as it is (nothing created, nothing
  overwritten), never calls the encoder and never returns \<^verbatim>\<open>True\<close>. When its lines
  can be printed it returns \<^verbatim>\<open>False\<close>, its events are the progress print, the one
  request and the error print, and the loop goes on with the remaining items from the
  same counters and the same files.
\<close>

theorem http_error_status_fails:
  assumes "fs (output_path photo_id) = None"
    and "http_get en (url photo_id width) headers 30 = Inr resp"
    and "400 \<le> status_code resp" and "status_code resp < 600"
  shows "(\<exists>evs r. download_and_optimize en photo_id width description fs = (evs, r, fs) \<and>
            r \<noteq> Inr True \<and> filter is_save evs = []) \<and>
         (stdout_error en (Downloading (take 40 description)) = None \<and>
          stdout_error en (Error_msg (HTTPError (status_code resp))) = None \<and>
          stdout_error en (Progress i (length IMAGES)) = None \<longrightarrow>
            download_and_optimize en photo_id width description fs =
              ([Print (Downloading (take 40 description)),
                Http_get (url photo_id width) headers 30,
                Print (Error_msg (HTTPError (status_code resp)))], Inr False, fs) \<and>
            main_loop en i ((photo_id, width, description) # rest) (success_count, total_size) fs =
              (case main_loop en (Suc i) rest (success_count, total_size) fs of
                 (evs, r, fs') \<Rightarrow>
                   (Print (Progress i (length IMAGES)) #
                     [Print (Downloading (take 40 description)),
                      Http_get (url photo_id width) headers 30,
                      Print (Error_msg (HTTPError (status_code resp)))] @ evs, r, fs')))"
proof (intro conjI impI)
  show "\<exists>evs r. download_and_optimize en photo_id width description fs = (evs, r, fs) \<and>
            r \<noteq> Inr True \<and> filter is_save evs = []"
    using assms
    by (auto simp: download_and_optimize_def path_exists_def try_body_def raise_for_status_def
        split: option.splits)
next
  assume p: "stdout_error en (Downloading (take 40 description)) = None \<and>
          stdout_error en (Error_msg (HTTPError (status_code resp))) = None \<and>
          stdout_error en (Progress i (length IMAGES)) = None"
  show d: "download_and_optimize en photo_id width description fs =
           ([Print (Downloading (take 40 description)),
             Http_get (url photo_id width) headers 30,
             Print (Error_msg (HTTPError (status_code resp)))], Inr False, fs)"
    using assms p
    by (simp add: download_and_optimize_def path_exists_def try_body_def raise_for_status_def)
  show "main_loop en i ((photo_id, width, description) # rest) (success_count, total_size) fs =
              (case main_loop en (Suc i) rest (success_count, total_size) fs of
                 (evs, r, fs') \<Rightarrow>
                   (Print (Progress i (length IMAGES)) #
                     [Print (Downloading (take 40 description)),
                      Http_get (url photo_id width) headers 30,
                      Print (Error_msg (HTTPError (status_code resp)))] @ evs, r, fs'))"
    using d p by simp
qed

theorem http_error_status_fails_witness:
  "Map.empty (output_path ''photo-1558904541-efa843a96f01'') = (None :: bytes option) \<and>
   http_get (env_status 404) (url ''photo-1558904541-efa843a96f01'' 1200) headers 30 =
     Inr \<lparr>status_code = 404, content = [1, 2, 3]\<rparr> \<and>
   download_and_optimize (env_status 404) ''photo-1558904541-efa843a96f01'' 1200
       ''Service image'' Map.empty =
     ([Print (Downloading ''Service image''),
       Http_get ''https://images.unsplash.com/photo-1558904541-efa843a96f01?w=1200&q=80''
         headers 30,
       Print (Error_msg (HTTPError 404))], Inr False, Map.empty)"
proof -
  have h: "Map.empty (output_path ''photo-1558904541-efa843a96f01'') = (None :: bytes option)"
    "http_get (env_status 404) (url ''photo-1558904541-efa843a96f01'' 1200) headers 30 =
       Inr \<lparr>status_code = 404, content = [1, 2, 3]\<rparr>"
    "400 \<le> status_code \<lparr>status_code = 404, content = [1, 2, 3]\<rparr>"
    "status_code \<lparr>status_code = 404, content = [1, 2, 3]\<rparr> < 600"
    by (simp_all add: env_status_def)
  show ?thesis
    using h(1,2) http_error_status_fails [OF h, of "''Service image''" 1 "[]" 0 0]
      example_url env_status_ok(1) [of 404]
    by simp
qed

text \<open>
  The claim as stated, for every non-success status, fails for a status that is
  neither 2xx nor 4xx/5xx: \<^verbatim>\<open>raise_for_status\<close> does not raise for status 300, the
  payload is decoded, and the item is saved and reported as a success.
\<close>

theorem status_300_is_saved:
  "Map.empty (output_path ''photo-1558904541-efa843a96f01'') = (None :: bytes option) \<and>
   http_get (env_status 300) (url ''photo-1558904541-efa843a96f01'' 1200) headers 30 =
     Inr \<lparr>status_code = 300, content = [1, 2, 3]\<rparr> \<and>
   \<not> (200 \<le> (300 :: nat) \<and> (300 :: nat) < 300) \<and>
   fst (snd (download_and_optimize (env_status 300) ''photo-1558904541-efa843a96f01'' 1200
       ''Service image'' Map.empty)) = Inr True \<and>
   snd (snd (download_and_optimize (env_status 300) ''photo-1558904541-efa843a96f01'' 1200
       ''Service image'' Map.empty)) (output_path ''photo-1558904541-efa843a96f01'') =
     Some [9, 9]"
  by (simp add: env_status_def download_and_optimize_def path_exists_def try_body_def
      raise_for_status_def example_normalize save_def getsize_def Let_def)

subsection \<open>The encoder's input and settings, the request\<close>

text \<open>
  Claim C4. Every image a call of \<^verbatim>\<open>download_and_optimize\<close> hands to the encoder
  is in mode RGB (three bands, no alpha, no palette), whatever mode the decoder
  produced; and when an item that was not skipped succeeds, the encoder was called on
  such an image and the file at the output path is that image's encoding.
\<close>

theorem encoder_input_is_rgb:
  assumes "download_and_optimize en photo_id width description fs = (evs, r, fs')"
  shows "(\<forall>p f q m l im. Save p f q m l im \<in> set evs \<longrightarrow>
            mode im = ''RGB'' \<and> bands_of (mode im) = 3 \<and> \<not> has_alpha_channel (mode im) \<and>
            mode im \<noteq> ''P'') \<and>
         (fs (output_path photo_id) = None \<and> r = Inr True \<longrightarrow>
            (\<exists>im data. Save (output_path photo_id) ''WEBP'' 85 6 False im \<in> set evs \<and>
               mode im = ''RGB'' \<and> encode en ''WEBP'' im 85 6 False = Inr data \<and>
               fs' (output_path photo_id) = Some data))"
proof (intro conjI allI impI)
  fix p f q m l im
  assume "Save p f q m l im \<in> set evs"
  from dao_save [OF assms this] have rgb: "mode im = ''RGB''" by simp
  then show "mode im = ''RGB''" "bands_of (mode im) = 3" "\<not> has_alpha_channel (mode im)"
    "mode im \<noteq> ''P''"
    by (simp_all add: bands_of_def has_alpha_channel_def)
next
  assume "fs (output_path photo_id) = None \<and> r = Inr True"
  then show "\<exists>im data. Save (output_path photo_id) ''WEBP'' 85 6 False im \<in> set evs \<and>
               mode im = ''RGB'' \<and> encode en ''WEBP'' im 85 6 False = Inr data \<and>
               fs' (output_path photo_id) = Some data"
    using dao_success assms by blast
qed

theorem encoder_input_is_rgb_witness:
  "mode \<lparr>mode = ''RGB'', size_wh = (2, 1), pixels = [[255, 255, 255], [132, 137, 142]],
          palette = [], load_error = None\<rparr> = ''RGB'' \<and>
   Map.empty (output_path ''photo-1558904541-efa843a96f01'') = (None :: bytes option) \<and>
   (\<exists>im data.
      Save (output_path ''photo-1558904541-efa843a96f01'') ''WEBP'' 85 6 False im
        \<in> set (fst (download_and_optimize (env_status 200) ''photo-1558904541-efa843a96f01''
                      1200 ''Service image'' Map.empty)) \<and>
      mode im = ''RGB'' \<and> encode (env_status 200) ''WEBP'' im 85 6 False = Inr data \<and>
      [''assets/images/photo-1558904541-efa843a96f01.webp'' \<mapsto> [9, 9]]
        (output_path ''photo-1558904541-efa843a96f01'') = Some data)"
proof -
  have h: "Map.empty (output_path ''photo-1558904541-efa843a96f01'') = (None :: bytes option)"
    by simp
  from encoder_input_is_rgb [OF example_download] h
  have "\<exists>im data.
      Save (output_path ''photo-1558904541-efa843a96f01'') ''WEBP'' 85 6 False im
        \<in> set (fst (download_and_optimize (env_status 200) ''photo-1558904541-efa843a96f01''
                      1200 ''Service image'' Map.empty)) \<and>
      mode im = ''RGB'' \<and> encode (env_status 200) ''WEBP'' im 85 6 False = Inr data \<and>
      [''assets/images/photo-1558904541-efa843a96f01.webp'' \<mapsto> [9, 9]]
        (output_path ''photo-1558904541-efa843a96f01'') = Some data"
    unfolding example_download fst_conv by blast
  then show ?thesis using h by simp
qed

text \<open>
  Claim C5. Every call of the encoder by \<^verbatim>\<open>download_and_optimize\<close> has quality 85
  (the constant \<^verbatim>\<open>WEBP_QUALITY\<close>), lossless false and method 6, in format WEBP, at the
  item's output path.
\<close>

theorem encoder_settings:
  assumes "download_and_optimize en photo_id width description fs = (evs, r, fs')"
    and "Save p f q m l im \<in> set evs"
  shows "q = 85 \<and> q = WEBP_QUALITY \<and> l = False \<and> m = 6 \<and> f = ''WEBP'' \<and>
         p = output_path photo_id"
  using dao_save [OF assms(1,2)] by (simp add: WEBP_QUALITY_def)

theorem encoder_settings_witness:
  "Save ''assets/images/photo-1558904541-efa843a96f01.webp'' ''WEBP'' 85 6 False
      \<lparr>mode = ''RGB'', size_wh = (2, 1), pixels = [[255, 255, 255], [132, 137, 142]],
       palette = [], load_error = None\<rparr>
     \<in> set (fst (download_and_optimize (env_status 200) ''photo-1558904541-efa843a96f01''
                   1200 ''Service image'' Map.empty)) \<and>
   (85 :: nat) = WEBP_QUALITY \<and>
   ''assets/images/photo-1558904541-efa843a96f01.webp'' =
     output_path ''photo-1558904541-efa843a96f01''"
proof -
  have h: "Save ''assets/images/photo-1558904541-efa843a96f01.webp'' ''WEBP'' 85 6 False
      \<lparr>mode = ''RGB'', size_wh = (2, 1), pixels = [[255, 255, 255], [132, 137, 142]],
       palette = [], load_error = None\<rparr>
     \<in> set (fst (download_and_optimize (env_status 200) ''photo-1558904541-efa843a96f01''
                   1200 ''Service image'' Map.empty))"
    by (simp add: example_download)
  from encoder_settings [OF example_download h [unfolded example_download fst_conv]] h
  show ?thesis by simp
qed

text \<open>
  Claim C6. The network requests of one call of \<^verbatim>\<open>download_and_optimize\<close>: none
  when the output exists (or when the line printed before the request raises, which
  leaves the \<^verbatim>\<open>try\<close> block before the request); otherwise exactly one (no retry), to
  the URL \<open>{base}/{identifier}?w={width}&q=80\<close> with the base
  \<^verbatim>\<open>https://images.unsplash.com\<close>, with exactly the two headers User-Agent and
  Referer, and with timeout 30.
\<close>

theorem request_arguments:
  assumes "download_and_optimize en photo_id width description fs = (evs, r, fs')"
  shows "filter is_http_get evs =
     (if fs (output_path photo_id) = None \<and>
         stdout_error en (Downloading (take 40 description)) = None
      then [Http_get (''https://images.unsplash.com'' @ ''/'' @ photo_id @ ''?w='' @
                      str_int width @ ''&q=80'')
              [(''User-Agent'',
                ''Mozilla/5.0 (Macintosh; Intel Mac OS X 10_15_7) AppleWebKit/537.36''),
               (''Referer'', ''https://www.urbanways.co.in/'')]
              30]
      else [])"
  using dao_http [OF assms] by (simp add: url_def headers_def)

theorem request_arguments_witness:
  "filter is_http_get
     (fst (download_and_optimize (env_status 200) ''photo-1558904541-efa843a96f01'' 1200
             ''Service image'' Map.empty)) =
     [Http_get ''https://images.unsplash.com/photo-1558904541-efa843a96f01?w=1200&q=80''
        [(''User-Agent'',
          ''Mozilla/5.0 (Macintosh; Intel Mac OS X 10_15_7) AppleWebKit/537.36''),
         (''Referer'', ''https://www.urbanways.co.in/'')]
        30] \<and>
   str_int 1200 = ''1200'' \<and> str_int (- 5) = ''-5''"
  using request_arguments [OF example_download] env_status_ok(1) [of 200]
  by (simp add: example_download str_int_def str_nat.simps)

subsection \<open>Error isolation\<close>

text \<open>
  Claim C8, as the code has it. Provided the script's lines can be printed: in every
  world (every mixture of failing and succeeding fetches, decodes, encodes and writes)
  \<^verbatim>\<open>download_and_optimize\<close> returns \<^verbatim>\<open>True\<close> or \<^verbatim>\<open>False\<close>, every exception of
  its \<^verbatim>\<open>try\<close> block being turned into \<^verbatim>\<open>False\<close> after the error line; the loop is
  exactly the 29 calls of \<^verbatim>\<open>download_and_optimize\<close>, one per item in order, each
  preceded by its progress line and run on the files the call before it left, whatever
  the earlier calls returned, and it ends normally with the number of \<^verbatim>\<open>True\<close>
  results; and \<^verbatim>\<open>main\<close>, provided also that the output directory could be created,
  prints its summary and closing lines after these calls and falls through normally
  (exit status 0).
\<close>

theorem no_item_error_escapes:
  assumes "\<forall>m. stdout_error en m = None"
  shows "(\<exists>evs ok fs'. download_and_optimize en photo_id width description fs = (evs, Inr ok, fs')) \<and>
   (\<forall>evs1 e fs1. fs (output_path photo_id) = None \<and>
        try_body en photo_id width description fs = (evs1, Inl e, fs1) \<longrightarrow>
        download_and_optimize en photo_id width description fs =
          (evs1 @ [Print (Error_msg e)], Inr False, fs1)) \<and>
   (\<exists>t. main_loop en 1 IMAGES (0, 0) start =
      (run_events 1 (calls en IMAGES start),
       Inr (length (filter (\<lambda>x. fst (snd x) = Inr True) (calls en IMAGES start)), t),
       final_files start (calls en IMAGES start))) \<and>
   length (calls en IMAGES start) = 29 \<and>
   (\<forall>x \<in> set (calls en IMAGES start). \<exists>ok. fst (snd x) = Inr ok) \<and>
   (makedirs_error en OUTPUT_DIR = None \<longrightarrow>
      (\<exists>t. main en start =
         (map Print heading @ [Makedirs OUTPUT_DIR] @ run_events 1 (calls en IMAGES start) @
          map Print
            (summary (length (filter (\<lambda>x. fst (snd x) = Inr True) (calls en IMAGES start))) t @
             closing (length (filter (\<lambda>x. fst (snd x) = Inr True) (calls en IMAGES start)))),
          Inr (), final_files start (calls en IMAGES start))))"
proof -
  let ?cs = "calls en IMAGES start"
  let ?n = "length (filter (\<lambda>x. fst (snd x) = Inr True) ?cs)"
  have one: "\<exists>evs ok fs'. download_and_optimize en photo_id width description fs = (evs, Inr ok, fs')"
    using assms by (rule dao_total)
  have caught: "\<forall>evs1 e fs1. fs (output_path photo_id) = None \<and>
        try_body en photo_id width description fs = (evs1, Inl e, fs1) \<longrightarrow>
        download_and_optimize en photo_id width description fs =
          (evs1 @ [Print (Error_msg e)], Inr False, fs1)"
    using assms by (simp add: download_and_optimize_def path_exists_def)
  obtain evs acc' fs' where loop0: "main_loop en 1 IMAGES (0, 0) start = (evs, Inr acc', fs')"
    using main_loop_total [OF assms] by blast
  obtain c t where acc': "acc' = (c, t)" by (cases acc')
  note loop = loop0 [unfolded acc']
  from main_loop_calls [OF loop] have evs: "evs = run_events 1 ?cs" and
    fs': "fs' = final_files start ?cs" and
    res: "map (\<lambda>x. fst (snd x)) ?cs = map Inr (outcomes en IMAGES start)" by simp_all
  from main_loop_counts [OF loop] have "c = succeeded (outcomes en IMAGES start)" by simp
  with count_true_calls [OF res] have c: "c = ?n" by simp
  have loop': "main_loop en 1 IMAGES (0, 0) start = (run_events 1 ?cs, Inr (?n, t), final_files start ?cs)"
    using loop evs fs' c by simp
  have all: "\<forall>x \<in> set ?cs. \<exists>ok. fst (snd x) = Inr ok"
  proof
    fix x
    assume "x \<in> set ?cs"
    then have "fst (snd x) \<in> set (map (\<lambda>x. fst (snd x)) ?cs)" by simp
    with res show "\<exists>ok. fst (snd x) = Inr ok" by auto
  qed
  have len: "length ?cs = 29" by (simp add: length_calls length_IMAGES)
  have m: "\<exists>t. main en start =
         (map Print heading @ [Makedirs OUTPUT_DIR] @ run_events 1 ?cs @
          map Print (summary ?n t @ closing ?n), Inr (), final_files start ?cs)"
    if mk: "makedirs_error en OUTPUT_DIR = None"
    using loop' mk by (auto simp: main_def prints_ok [OF assms])
  from one caught loop' len all m show ?thesis by blast
qed

theorem no_item_error_escapes_witness:
  "(\<forall>m. stdout_error env_mixed m = None) \<and> makedirs_error env_mixed OUTPUT_DIR = None \<and>
   map (\<lambda>x. fst (snd x)) (calls env_mixed (take 5 IMAGES) Map.empty) =
     [Inr False, Inr False, Inr False, Inr False, Inr True] \<and>
   length (calls env_mixed IMAGES Map.empty) = 29 \<and>
   (\<exists>t. main env_mixed Map.empty =
         (map Print heading @ [Makedirs OUTPUT_DIR] @
          run_events 1 (calls env_mixed IMAGES Map.empty) @
          map Print
            (summary (length (filter (\<lambda>x. fst (snd x) = Inr True)
                                (calls env_mixed IMAGES Map.empty))) t @
             closing (length (filter (\<lambda>x. fst (snd x) = Inr True)
                                (calls env_mixed IMAGES Map.empty)))),
          Inr (), final_files Map.empty (calls env_mixed IMAGES Map.empty)))"
  using no_item_error_escapes [OF env_mixed_ok(1), where start = Map.empty]
    env_mixed_ok mixed_calls
  by blast

text \<open>
  The claim as stated, for every combination of per-item outcomes with no condition
  on the standard output, fails when the handler's own line cannot be printed (its
  first character is outside the output's encoding): the first item's fetch times out,
  the exception is caught, the handler's \<^verbatim>\<open>print\<close> raises outside any \<^verbatim>\<open>try\<close>, and
  that exception leaves \<^verbatim>\<open>download_and_optimize\<close>, the loop and \<^verbatim>\<open>main\<close>: no
  further item is processed and the process does not exit normally.
\<close>

theorem handler_print_escapes:
  "makedirs_error env_narrow_stdout OUTPUT_DIR = None \<and>
   http_get env_narrow_stdout (url ''photo-1503387762-592deb58ef4e'' 1920) headers 30 =
     Inl Timeout \<and>
   download_and_optimize env_narrow_stdout ''photo-1503387762-592deb58ef4e'' 1920
       ''Architect reviewing building plans'' Map.empty =
     ([Print (Downloading ''Architect reviewing building plans''),
       Http_get (url ''photo-1503387762-592deb58ef4e'' 1920) headers 30,
       Print (Error_msg Timeout)], Inl UnicodeEncodeError, Map.empty) \<and>
   main env_narrow_stdout Map.empty =
     (map Print heading @
      [Makedirs OUTPUT_DIR, Print (Progress 1 29),
       Print (Downloading ''Architect reviewing building plans''),
       Http_get (url ''photo-1503387762-592deb58ef4e'' 1920) headers 30,
       Print (Error_msg Timeout)], Inl UnicodeEncodeError, Map.empty)"
proof -
  have e: "makedirs_error env_narrow_stdout OUTPUT_DIR = None"
    "http_get env_narrow_stdout (url ''photo-1503387762-592deb58ef4e'' 1920) headers 30 =
       Inl Timeout"
    "stdout_error env_narrow_stdout (Error_msg Timeout) = Some UnicodeEncodeError"
    "stdout_error env_narrow_stdout (Downloading ''Architect reviewing building plans'') = None"
    "\<And>k n. stdout_error env_narrow_stdout (Progress k n) = None"
    by (simp_all add: env_narrow_stdout_def env_mixed_def)
  have h: "prints env_narrow_stdout heading = (map Print heading, None)"
    by (simp add: heading_def env_narrow_stdout_def env_mixed_def)
  have d: "download_and_optimize env_narrow_stdout ''photo-1503387762-592deb58ef4e'' 1920
       ''Architect reviewing building plans'' Map.empty =
     ([Print (Downloading ''Architect reviewing building plans''),
       Http_get (url ''photo-1503387762-592deb58ef4e'' 1920) headers 30,
       Print (Error_msg Timeout)], Inl UnicodeEncodeError, Map.empty)"
    using e by (simp add: download_and_optimize_def path_exists_def try_body_def)
  have items: "IMAGES = (''photo-1503387762-592deb58ef4e'', 1920,
      ''Architect reviewing building plans'') # tl IMAGES"
    by (simp add: IMAGES_def)
  have l: "main_loop env_narrow_stdout 1 IMAGES (0, 0) Map.empty =
     ([Print (Progress 1 29),
       Print (Downloading ''Architect reviewing building plans''),
       Http_get (url ''photo-1503387762-592deb58ef4e'' 1920) headers 30,
       Print (Error_msg Timeout)], Inl UnicodeEncodeError, Map.empty)"
    by (subst items) (simp add: d e length_IMAGES)
  show ?thesis
    using e(1,2) d by (simp add: main_def h l [unfolded One_nat_def])
qed

subsection \<open>The final report\<close>

text \<open>
  Claim C7, as the code has it. The list has 29 items. The report of a run that ends
  normally prints the number \<open>n\<close> of items whose call returned \<^verbatim>\<open>True\<close> out of 29,
  then the total size, then the success message when \<open>n = 29\<close> and the warning
  (with \<open>29 - n\<close>) otherwise. When all 29 succeeded, each of the 29 output files
  \<open>{identifier}.webp\<close> exists in the output directory, the 29 paths are pairwise
  distinct, and a path holds a file after the run exactly when it is one of the 29 or
  held a file before: the directory contains the 29 files and whatever else it
  contained before the run.
\<close>

theorem main_report_and_files:
  assumes "main en fs = (evs, Inr (), fs')"
    and "n = succeeded (outcomes en IMAGES fs)"
  shows "length IMAGES = 29 \<and> n \<le> 29 \<and>
     filter is_report evs =
       [Print (Completed n 29),
        Print (Total_size (successful_size fs' IMAGES (outcomes en IMAGES fs))),
        (if n = 29 then Print Success_msg else Print (Warning_msg (29 - int n)))] \<and>
     (n = 29 \<longrightarrow>
        (\<forall>item \<in> set IMAGES.
           fs' (output_path (fst item)) \<noteq> None \<and> in_dir OUTPUT_DIR (output_path (fst item))) \<and>
        distinct (map (\<lambda>item. output_path (fst item)) IMAGES) \<and>
        length (map (\<lambda>item. output_path (fst item)) IMAGES) = 29 \<and>
        (\<forall>p. fs' p \<noteq> None \<longleftrightarrow>
           p \<in> set (map (\<lambda>item. output_path (fst item)) IMAGES) \<or> fs p \<noteq> None))"
proof (intro conjI impI)
  note rep = main_report [OF assms(1)]
  show "length IMAGES = 29" by (rule length_IMAGES)
  show "n \<le> 29"
    using succeeded_le [of "outcomes en IMAGES fs"] rep(2) assms(2) length_IMAGES by simp
  show "filter is_report evs =
       [Print (Completed n 29),
        Print (Total_size (successful_size fs' IMAGES (outcomes en IMAGES fs))),
        (if n = 29 then Print Success_msg else Print (Warning_msg (29 - int n)))]"
    using rep(1) assms(2) length_IMAGES by simp
  show "distinct (map (\<lambda>item. output_path (fst item)) IMAGES)"
    by (rule distinct_output_paths)
  show "length (map (\<lambda>item. output_path (fst item)) IMAGES) = 29"
    by (simp add: length_IMAGES)
  assume all: "n = 29"
  have exists: "fs' (output_path (fst item)) \<noteq> None" if "item \<in> set IMAGES" for item
  proof -
    from that obtain k where k: "k < length IMAGES" "IMAGES ! k = item"
      by (auto simp: in_set_conv_nth)
    have "outcomes en IMAGES fs ! k"
      using succeeded_all [OF rep(2), of k] all assms(2) k(1) length_IMAGES by simp
    with rep(3) k show ?thesis by auto
  qed
  then show "\<forall>item \<in> set IMAGES.
           fs' (output_path (fst item)) \<noteq> None \<and> in_dir OUTPUT_DIR (output_path (fst item))"
    using in_dir_output_paths by blast
  show "\<forall>p. fs' p \<noteq> None \<longleftrightarrow>
           p \<in> set (map (\<lambda>item. output_path (fst item)) IMAGES) \<or> fs p \<noteq> None"
  proof
    fix p
    show "fs' p \<noteq> None \<longleftrightarrow>
           p \<in> set (map (\<lambda>item. output_path (fst item)) IMAGES) \<or> fs p \<noteq> None"
    proof (cases "p \<in> set (map (\<lambda>item. output_path (fst item)) IMAGES)")
      case True
      then obtain item where "item \<in> set IMAGES" "p = output_path (fst item)" by auto
      with exists True show ?thesis by simp
    next
      case False
      from main_files_other [OF assms(1) False] False show ?thesis by simp
    qed
  qed
qed

theorem main_report_and_files_witness:
  "fst (snd (main (env_status 200) fs_full)) = Inr () \<and>
   succeeded (outcomes (env_status 200) IMAGES fs_full) = 29 \<and>
   filter is_report (fst (main (env_status 200) fs_full)) =
     [Print (Completed 29 29),
      Print (Total_size (successful_size (snd (snd (main (env_status 200) fs_full))) IMAGES
                           (outcomes (env_status 200) IMAGES fs_full))),
      Print Success_msg] \<and>
   snd (snd (main (env_status 200) fs_full))
     (output_path ''photo-1507003211169-0a1dd7228f2d'') \<noteq> None \<and>
   snd (snd (main (env_status 200) fs_full)) ''assets/images/other.txt'' = None"
proof -
  obtain evs fs' where m: "main (env_status 200) fs_full = (evs, Inr (), fs')"
    using full_run by blast
  have "outcomes (env_status 200) IMAGES fs_full = replicate (length IMAGES) True"
    using env_status_ok(1) fs_full_outputs by (rule outcomes_all_exist)
  then have n: "29 = succeeded (outcomes (env_status 200) IMAGES fs_full)"
    by (simp add: succeeded_def length_IMAGES)
  have last: "(''photo-1507003211169-0a1dd7228f2d'', 1920, ''Professional portrait'') \<in> set IMAGES"
    by (simp add: IMAGES_def)
  have other: "''assets/images/other.txt'' \<notin> set (map (\<lambda>item. output_path (fst item)) IMAGES)"
    "fs_full ''assets/images/other.txt'' = None"
    by (simp_all add: fs_full_def IMAGES_def output_path_def OUTPUT_DIR_def)
  from main_report_and_files [OF m n] last other
  have "filter is_report evs =
     [Print (Completed 29 29),
      Print (Total_size (successful_size fs' IMAGES (outcomes (env_status 200) IMAGES fs_full))),
      Print Success_msg]"
    "fs' (output_path ''photo-1507003211169-0a1dd7228f2d'') \<noteq> None"
    "fs' ''assets/images/other.txt'' = None"
    by (simp, fastforce, metis)
  with m n show ?thesis by simp
qed

text \<open>
  The claim as stated, that the output directory then contains exactly 29 files, fails
  when the directory held another file before the run: the script never removes a
  file. Here every output exists beforehand together with \<^verbatim>\<open>logo.png\<close>; all 29 items
  succeed and the directory holds 30 files.
\<close>

theorem extra_file_in_directory:
  "fst (snd (main (env_status 200) fs_full)) = Inr () \<and>
   succeeded (outcomes (env_status 200) IMAGES fs_full) = 29 \<and>
   in_dir OUTPUT_DIR ''assets/images/logo.png'' \<and>
   snd (snd (main (env_status 200) fs_full)) ''assets/images/logo.png'' = Some [7] \<and>
   ''assets/images/logo.png'' \<notin> set (map (\<lambda>item. output_path (fst item)) IMAGES) \<and>
   length (map (\<lambda>item. output_path (fst item)) IMAGES) = 29"
proof -
  have "outcomes (env_status 200) IMAGES fs_full = replicate (length IMAGES) True"
    using env_status_ok(1) fs_full_outputs by (rule outcomes_all_exist)
  then have "succeeded (outcomes (env_status 200) IMAGES fs_full) = 29"
    by (simp add: succeeded_def length_IMAGES)
  moreover have "in_dir OUTPUT_DIR ''assets/images/logo.png''"
    by (simp add: in_dir_def OUTPUT_DIR_def)
  ultimately show ?thesis
    using full_run logo_not_output by (auto simp: length_IMAGES)
qed

text \<open>
  Claim C10. The total size in the final report is the sum, over the items whose call
  returned \<^verbatim>\<open>True\<close>, of the size of the item's output file on disk at the end of the
  run. An item whose output file existed before the run is among them (its call
  returns \<^verbatim>\<open>True\<close>) and its file is the one that existed, so files not produced by
  this run are counted.
\<close>

theorem total_size_counts_skipped:
  assumes "main en fs = (evs, Inr (), fs')"
  shows "filter is_total_size evs =
           [Print (Total_size (successful_size fs' IMAGES (outcomes en IMAGES fs)))] \<and>
         length (outcomes en IMAGES fs) = length IMAGES \<and>
         (\<forall>k < length IMAGES. fs (output_path (fst (IMAGES ! k))) \<noteq> None \<longrightarrow>
            outcomes en IMAGES fs ! k \<and>
            fs' (output_path (fst (IMAGES ! k))) = fs (output_path (fst (IMAGES ! k))))"
proof (intro conjI allI impI)
  note rep = main_report [OF assms]
  show "filter is_total_size evs =
           [Print (Total_size (successful_size fs' IMAGES (outcomes en IMAGES fs)))]"
    by (subst filter_total_size_report) (simp add: rep(1))
  show "length (outcomes en IMAGES fs) = length IMAGES" by (rule rep(2))
next
  fix k
  assume k: "k < length IMAGES" and ex: "fs (output_path (fst (IMAGES ! k))) \<noteq> None"
  then obtain b where b: "fs (output_path (fst (IMAGES ! k))) = Some b" by auto
  show "outcomes en IMAGES fs ! k" using main_report(4) [OF assms] k ex by blast
  show "fs' (output_path (fst (IMAGES ! k))) = fs (output_path (fst (IMAGES ! k)))"
    using main_files_kept [OF assms b] b by simp
qed

theorem total_size_counts_skipped_witness:
  "fst (snd (main (env_status 200) fs_first)) = Inr () \<and>
   filter is_total_size (fst (main (env_status 200) fs_first)) =
     [Print (Total_size (successful_size (snd (snd (main (env_status 200) fs_first))) IMAGES
                           (outcomes (env_status 200) IMAGES fs_first)))] \<and>
   fs_first (output_path (fst (IMAGES ! 0))) = Some [1, 2, 3, 4, 5] \<and>
   outcomes (env_status 200) IMAGES fs_first ! 0 \<and>
   snd (snd (main (env_status 200) fs_first)) (output_path (fst (IMAGES ! 0))) =
     Some [1, 2, 3, 4, 5]"
proof -
  obtain evs fs' where m: "main (env_status 200) fs_first = (evs, Inr (), fs')"
    using first_run by blast
  have f: "fs_first (output_path (fst (IMAGES ! 0))) = Some [1, 2, 3, 4, 5]"
    by (simp add: fs_first_def IMAGES_def)
  have k: "0 < length IMAGES" by (simp add: length_IMAGES)
  from total_size_counts_skipped [OF m] k f
  have "filter is_total_size evs =
     [Print (Total_size (successful_size fs' IMAGES (outcomes (env_status 200) IMAGES fs_first)))]"
    "outcomes (env_status 200) IMAGES fs_first ! 0"
    "fs' (output_path (fst (IMAGES ! 0))) = Some [1, 2, 3, 4, 5]"
    by (simp, fastforce, fastforce)
  with m f show ?thesis by simp
qed

end
